theory Spec2Isabelle
  imports Main "HOL-Library.AList"
begin

section \<open>Strings\<close>

text \<open>
  A JavaScript string is a sequence of UTF-16 code units. The model keeps the code units
  below 256, which \<^typ>\<open>char\<close> holds, so a \<^typ>\<open>string\<close> is a JavaScript string
  over that range. Among these code units the ones that \<^verbatim>\<open>trim()\<close> strips and that the
  regular expression class \<^verbatim>\<open>\s\<close> matches are tab, line feed, vertical tab, form feed,
  carriage return, space and the no-break space.
\<close>

definition LF :: char where
  "LF = CHR 0x0A"

definition isWhite :: "char \<Rightarrow> bool" where
  "isWhite c = (c \<in> set [CHR 0x09, CHR 0x0A, CHR 0x0B, CHR 0x0C, CHR 0x0D, CHR 0x20, CHR 0xA0])"

text \<open>\<^verbatim>\<open>s.trim()\<close>: white space removed from both ends.\<close>

definition trim :: "string \<Rightarrow> string" where
  "trim s = rev (dropWhile isWhite (rev (dropWhile isWhite s)))"

text \<open>
  \<^verbatim>\<open>s.split(d)\<close> for a separator \<open>d\<close> of one character: the pieces between the
  separators, empty pieces included; the empty string gives one empty piece.
\<close>

fun splitOn :: "char \<Rightarrow> string \<Rightarrow> string list" where
  "splitOn d [] = [[]]"
| "splitOn d (c # cs) =
     (if c = d then [] # splitOn d cs
      else (case splitOn d cs of [] \<Rightarrow> [[c]] | t # ts \<Rightarrow> (c # t) # ts))"

text \<open>
  \<^verbatim>\<open>s.split(/\s+/)\<close>: the pieces between the maximal runs of white space. A run at the
  start or at the end of \<open>s\<close> leaves an empty piece there, as in JavaScript.
\<close>

function splitWs :: "string \<Rightarrow> string list" where
  "splitWs [] = [[]]"
| "splitWs (c # cs) =
     (if isWhite c then [] # splitWs (dropWhile isWhite cs)
      else (case splitWs cs of [] \<Rightarrow> [[c]] | t # ts \<Rightarrow> (c # t) # ts))"
  by pat_completeness auto
termination
  by (relation "measure length") (auto simp: less_Suc_eq_le length_dropWhile_le)

text \<open>\<^verbatim>\<open>xs.join(sep)\<close>.\<close>

fun joinWith :: "string \<Rightarrow> string list \<Rightarrow> string" where
  "joinWith sep [] = []"
| "joinWith sep [x] = x"
| "joinWith sep (x # y # ys) = x @ sep @ joinWith sep (y # ys)"

text \<open>\<^verbatim>\<open>s.startsWith(p)\<close> and \<^verbatim>\<open>s.endsWith(p)\<close>.\<close>

definition startsWith :: "string \<Rightarrow> string \<Rightarrow> bool" where
  "startsWith p s = (take (length p) s = p)"

definition endsWith :: "string \<Rightarrow> string \<Rightarrow> bool" where
  "endsWith p s = (length p \<le> length s \<and> drop (length s - length p) s = p)"

section \<open>The checksum manifest parser\<close>

text \<open>
  \<^verbatim>\<open>parseChecksums\<close> is the same function in the downloader and in the post-processor.
  The callback of \<^verbatim>\<open>forEach\<close> is \<open>parseLine\<close>: it pushes one entry or none.
\<close>

record ChecksumEntry =
  hash :: string
  filename :: string

definition parseLine :: "ChecksumEntry list \<Rightarrow> string \<Rightarrow> ChecksumEntry list" where
  "parseLine entries line =
     (let trimmed = trim line in
      if trimmed \<noteq> [] then
        (let parts = splitWs trimmed in
         if length parts \<ge> 2
         then entries @ [\<lparr>hash = hd parts, filename = joinWith '' '' (tl parts)\<rparr>]
         else entries)
      else entries)"

definition parseChecksums :: "string \<Rightarrow> ChecksumEntry list" where
  "parseChecksums content = foldl parseLine [] (splitOn LF content)"

subsection \<open>The manifest format in the specification's words\<close>

text \<open>
  The specification describes a line of the manifest by its white-space-delimited tokens:
  the maximal runs of characters that are not white space. \<open>tokens\<close> follows these words
  and does not use the parser's own splitting. A line is well formed when it has at least
  two tokens; its entry has the first token as hash and the other tokens, joined by single
  spaces, as filename.
\<close>

function tokens :: "string \<Rightarrow> string list" where
  "tokens s =
     (case dropWhile isWhite s of
        [] \<Rightarrow> []
      | c # cs \<Rightarrow>
          (c # takeWhile (\<lambda>x. \<not> isWhite x) cs) # tokens (dropWhile (\<lambda>x. \<not> isWhite x) cs))"
  by pat_completeness auto
termination
proof (relation "measure length", goal_cases)
  case 1
  show ?case by simp
next
  case (2 s c cs)
  have "length (dropWhile (\<lambda>x. \<not> isWhite x) cs) \<le> length cs"
    by (rule length_dropWhile_le)
  moreover have "length (dropWhile isWhite s) \<le> length s"
    by (rule length_dropWhile_le)
  ultimately show ?case using 2 by simp
qed

declare tokens.simps [simp del]

definition wellFormed :: "string \<Rightarrow> bool" where
  "wellFormed line = (length (tokens line) \<ge> 2)"

definition entryOf :: "string \<Rightarrow> ChecksumEntry" where
  "entryOf line = \<lparr>hash = hd (tokens line), filename = joinWith '' '' (tl (tokens line))\<rparr>"

definition isToken :: "string \<Rightarrow> bool" where
  "isToken t = (t \<noteq> [] \<and> list_all (\<lambda>c. \<not> isWhite c) t)"

text \<open>
  The portion of a line after the hash: the trimmed line without its first token and
  without the white space that separates the first token from the rest.
\<close>

definition afterHash :: "string \<Rightarrow> string" where
  "afterHash line = dropWhile isWhite (dropWhile (\<lambda>x. \<not> isWhite x) (trim line))"

section \<open>Paths\<close>

text \<open>
  \<^verbatim>\<open>path.join\<close> and \<^verbatim>\<open>path.basename\<close> of Node's POSIX path module. \<open>normSegs\<close> is its
  \<^verbatim>\<open>normalizeString\<close>: empty segments and \<^verbatim>\<open>.\<close> are dropped and \<^verbatim>\<open>..\<close> removes the segment
  before it; above the root of an absolute path \<^verbatim>\<open>..\<close> is dropped, in a relative path it is
  kept. \<^verbatim>\<open>normalize\<close> keeps a trailing separator.
\<close>

fun normSegs :: "bool \<Rightarrow> string list \<Rightarrow> string list \<Rightarrow> string list" where
  "normSegs allowAboveRoot acc [] = acc"
| "normSegs allowAboveRoot acc (seg # segs) =
     (if seg = [] \<or> seg = ''.'' then normSegs allowAboveRoot acc segs
      else if seg = ''..'' then
        (if acc \<noteq> [] \<and> last acc \<noteq> ''..'' then normSegs allowAboveRoot (butlast acc) segs
         else if allowAboveRoot then normSegs allowAboveRoot (acc @ [''..'']) segs
         else normSegs allowAboveRoot acc segs)
      else normSegs allowAboveRoot (acc @ [seg]) segs)"

definition normalizePath :: "string \<Rightarrow> string" where
  "normalizePath p =
     (if p = [] then ''.''
      else
        (let isAbsolute = (hd p = CHR ''/'');
             trailingSeparator = (last p = CHR ''/'');
             body = joinWith ''/'' (normSegs (\<not> isAbsolute) [] (splitOn (CHR ''/'') p))
         in if body = [] then (if isAbsolute then ''/'' else if trailingSeparator then ''./'' else ''.'')
            else (if isAbsolute then ''/'' else []) @ body @ (if trailingSeparator then ''/'' else [])))"

definition join :: "string list \<Rightarrow> string" where
  "join args =
     (let given = filter (\<lambda>a. a \<noteq> []) args
      in if given = [] then ''.'' else normalizePath (joinWith ''/'' given))"

definition basename :: "string \<Rightarrow> string" where
  "basename p =
     rev (takeWhile (\<lambda>c. c \<noteq> CHR ''/'') (dropWhile (\<lambda>c. c = CHR ''/'') (rev p)))"

section \<open>The file system\<close>

text \<open>
  The file tree: a file with its content, or a directory with its entries in the order
  \<^verbatim>\<open>readdir\<close> lists them. A name is looked up with \<^const>\<open>map_of\<close>. A path string is
  resolved from the root by its segments; the paths of both scripts start with
  \<^verbatim>\<open>process.cwd()\<close>, which is absolute. A path that ends with a separator names a
  directory only.
\<close>

datatype node = File string | Dir "(string \<times> node) list"

definition segments :: "string \<Rightarrow> string list" where
  "segments p = filter (\<lambda>s. s \<noteq> []) (splitOn (CHR ''/'') p)"

definition trailingSlash :: "string \<Rightarrow> bool" where
  "trailingSlash p = (p \<noteq> [] \<and> last p = CHR ''/'')"

fun nodeAt :: "node \<Rightarrow> string list \<Rightarrow> node option" where
  "nodeAt n [] = Some n"
| "nodeAt n (c # cs) =
     (case n of
        File _ \<Rightarrow> None
      | Dir es \<Rightarrow> (case map_of es c of None \<Rightarrow> None | Some m \<Rightarrow> nodeAt m cs))"

text \<open>\<open>putNode\<close> stores a node at a path whose parent is a directory; a new name goes last.\<close>

fun putNode :: "string list \<Rightarrow> node \<Rightarrow> node \<Rightarrow> node" where
  "putNode [] new n = new"
| "putNode (c # cs) new n =
     (case n of
        File x \<Rightarrow> File x
      | Dir es \<Rightarrow>
          (case map_of es c of
             None \<Rightarrow> (if cs = [] then Dir (es @ [(c, new)]) else Dir es)
           | Some m \<Rightarrow> Dir (AList.update c (putNode cs new m) es)))"

fun removeNode :: "string list \<Rightarrow> node \<Rightarrow> node" where
  "removeNode [] n = n"
| "removeNode (c # cs) n =
     (case n of
        File x \<Rightarrow> File x
      | Dir es \<Rightarrow>
          (if cs = [] then Dir (AList.delete c es)
           else (case map_of es c of
                   None \<Rightarrow> Dir es
                 | Some m \<Rightarrow> Dir (AList.update c (removeNode cs m) es))))"

text \<open>\<^verbatim>\<open>mkdir -p\<close> on the tree: the missing directories of the path are created.\<close>

fun makeDirs :: "string list \<Rightarrow> node \<Rightarrow> node option" where
  "makeDirs [] n = (case n of File _ \<Rightarrow> None | Dir _ \<Rightarrow> Some n)"
| "makeDirs (c # cs) n =
     (case n of
        File _ \<Rightarrow> None
      | Dir es \<Rightarrow>
          (case map_of es c of
             None \<Rightarrow> (case makeDirs cs (Dir []) of None \<Rightarrow> None | Some m \<Rightarrow> Some (Dir (es @ [(c, m)])))
           | Some d \<Rightarrow> (case makeDirs cs d of None \<Rightarrow> None | Some m \<Rightarrow> Some (Dir (AList.update c m es)))))"

subsection \<open>Errors and the environment of a run\<close>

text \<open>
  The errors the two scripts can meet. The first five are the operating system's, with the
  path they are about; \<open>ToolFailed\<close> is the script's own \<^verbatim>\<open>${cmd} failed with code ${code}\<close>;
  \<open>SpawnFailed\<close> is the child process's \<^verbatim>\<open>error\<close> event; \<open>HttpFailed\<close> is a rejected request;
  \<open>TypeError\<close> is the runtime's, for a method called on a value that has none of that name.
\<close>

datatype error =
    ENOENT string
  | ENOTDIR string
  | EISDIR string
  | EEXIST string
  | EACCES string
  | ToolFailed string "int option"
  | SpawnFailed string
  | HttpFailed string
  | TypeError string

datatype fsop = OpReaddir | OpReadFile | OpWriteFile | OpMkdir | OpCopyFile | OpOpen

text \<open>How a child process ended: closed with an exit code (none when a signal killed it), or never started.\<close>

datatype childExit = Closed "int option" | NotSpawned

text \<open>
  What the release server does with a request: it does not answer (a transport error, a
  status outside 2xx, a timeout), it sends the whole body, or its response starts and then
  breaks off.
\<close>

datatype response = NoResponse | Complete string | BrokenOff

text \<open>
  The data of a response that was not asked for as a stream: a string, or another
  JavaScript value (a number, an object, an array, a boolean, \<^verbatim>\<open>null\<close>).
\<close>

datatype jsdata = JString string | JOther

text \<open>
  What a run takes from outside the program: the positional argument, the working
  directory, the host platform, the child processes (\<^verbatim>\<open>tar\<close>, \<^verbatim>\<open>unzip\<close>, PowerShell: what
  they do to the file tree and how they end), the operations the operating system refuses
  for reasons the tree does not show (permissions, busy files), the removals it does not
  complete (the error, and the tree that is left: a recursive removal removes what it can
  before it fails), the answers of the release server, \<^verbatim>\<open>JSON.parse\<close> (the value of a text
  that is JSON), and the order in which the responses of concurrent downloads come in (the
  time at which the response of the download with a given index is handled).
\<close>

record env =
  argv2 :: "string option"
  cwd :: string
  platform :: string
  denied :: "fsop \<Rightarrow> string \<Rightarrow> bool"
  rmFailure :: "string \<Rightarrow> node \<Rightarrow> (error \<times> node) option"
  spawn :: "string \<Rightarrow> string list \<Rightarrow> node \<Rightarrow> childExit \<times> node"
  httpGet :: "string \<Rightarrow> response"
  parseJSON :: "string \<Rightarrow> jsdata option"
  arrival :: "nat \<Rightarrow> nat"

subsection \<open>The operations of \<^verbatim>\<open>fs\<close>\<close>

text \<open>
  Each operation but the removal either fails, leaving the tree as it was, or returns its
  result.
\<close>

definition readdirTypes :: "env \<Rightarrow> string \<Rightarrow> node \<Rightarrow> error + (string \<times> bool) list" where
  "readdirTypes E p t =
     (if denied E OpReaddir p then Inl (EACCES p)
      else (case nodeAt t (segments p) of
              None \<Rightarrow> Inl (ENOENT p)
            | Some (File _) \<Rightarrow> Inl (ENOTDIR p)
            | Some (Dir es) \<Rightarrow>
                Inr (map (\<lambda>name. (name, (case map_of es name of Some (Dir _) \<Rightarrow> True | _ \<Rightarrow> False)))
                       (remdups (map fst es)))))"

definition readdir :: "env \<Rightarrow> string \<Rightarrow> node \<Rightarrow> error + string list" where
  "readdir E p t = (case readdirTypes E p t of Inl e \<Rightarrow> Inl e | Inr ents \<Rightarrow> Inr (map fst ents))"

definition readFile :: "env \<Rightarrow> string \<Rightarrow> node \<Rightarrow> error + string" where
  "readFile E p t =
     (if denied E OpReadFile p then Inl (EACCES p)
      else (case nodeAt t (segments p) of
              None \<Rightarrow> Inl (ENOENT p)
            | Some (Dir _) \<Rightarrow> Inl (EISDIR p)
            | Some (File content) \<Rightarrow> if trailingSlash p then Inl (ENOTDIR p) else Inr content))"

text \<open>
  Opening a file for writing and storing \<open>content\<close>: the parent must be a directory and the
  path must not name a directory.
\<close>

definition storeFile :: "string \<Rightarrow> string \<Rightarrow> node \<Rightarrow> error + node" where
  "storeFile p content t =
     (let segs = segments p in
      if segs = [] \<or> trailingSlash p then Inl (EISDIR p)
      else (case nodeAt t (butlast segs) of
              None \<Rightarrow> Inl (ENOENT p)
            | Some (File _) \<Rightarrow> Inl (ENOTDIR p)
            | Some (Dir _) \<Rightarrow>
                (case nodeAt t segs of
                   Some (Dir _) \<Rightarrow> Inl (EISDIR p)
                 | _ \<Rightarrow> Inr (putNode segs (File content) t))))"

definition writeFile :: "env \<Rightarrow> string \<Rightarrow> string \<Rightarrow> node \<Rightarrow> error + node" where
  "writeFile E p content t = (if denied E OpWriteFile p then Inl (EACCES p) else storeFile p content t)"

definition copyFile :: "env \<Rightarrow> string \<Rightarrow> string \<Rightarrow> node \<Rightarrow> error + node" where
  "copyFile E src dest t =
     (if denied E OpCopyFile src \<or> denied E OpCopyFile dest then Inl (EACCES src)
      else (case nodeAt t (segments src) of
              None \<Rightarrow> Inl (ENOENT src)
            | Some (Dir _) \<Rightarrow> Inl (EISDIR src)
            | Some (File content) \<Rightarrow>
                if trailingSlash src then Inl (ENOTDIR src) else storeFile dest content t))"

text \<open>
  \<^verbatim>\<open>mkdir(p, { recursive: true })\<close>. Where the path cannot be made, a file is in the way: the
  path itself names a file (\<^verbatim>\<open>EEXIST\<close>), or a directory above it is a file (\<^verbatim>\<open>ENOTDIR\<close>).
\<close>

definition mkdir :: "env \<Rightarrow> string \<Rightarrow> node \<Rightarrow> error + node" where
  "mkdir E p t =
     (if denied E OpMkdir p then Inl (EACCES p)
      else (case makeDirs (segments p) t of
              Some t' \<Rightarrow> Inr t'
            | None \<Rightarrow> (case nodeAt t (segments p) of
                         Some (File _) \<Rightarrow> Inl (EEXIST p)
                       | _ \<Rightarrow> Inl (ENOTDIR p))))"

text \<open>
  \<^verbatim>\<open>rmSync(p, { recursive, force })\<close>: with \<open>force\<close> a path that does not exist is no error;
  a directory is removed only with \<open>recursive\<close>. The result is the error, if there is one,
  and the tree that is left, which a removal that fails may have changed.
\<close>

definition rmSync :: "env \<Rightarrow> string \<Rightarrow> bool \<Rightarrow> bool \<Rightarrow> node \<Rightarrow> error option \<times> node" where
  "rmSync E p recursive force t =
     (case rmFailure E p t of
        Some (e, left) \<Rightarrow> (Some e, left)
      | None \<Rightarrow>
          (case nodeAt t (segments p) of
             None \<Rightarrow> if force then (None, t) else (Some (ENOENT p), t)
           | Some (Dir _) \<Rightarrow> if recursive then (None, removeNode (segments p) t) else (Some (EISDIR p), t)
           | Some (File _) \<Rightarrow> (None, removeNode (segments p) t)))"

section \<open>Runs: state, console and control flow\<close>

text \<open>
  A line of the console, without its time stamp and styling: \<open>Line m\<close> is the message
  \<open>m\<close>; \<open>ErrorLine m e\<close> is the message \<^verbatim>\<open>Error: \<close> followed by \<open>m\<close> and the text of the
  caught error \<open>e\<close>.
\<close>

datatype logline = Line string | ErrorLine string error

text \<open>
  The state of a run: the file tree, the console, and the URLs requested so far.
\<close>

record state =
  fs :: node
  out :: "logline list"
  reqs :: "string list"

text \<open>
  A step of a script runs on a state and ends in one of three ways: it returns a value,
  it throws, or it calls \<^verbatim>\<open>process.exit\<close>. A step that does not end has no result
  (\<open>None\<close>). \<open>andThen\<close> is sequencing (\<^verbatim>\<open>await\<close>, \<^verbatim>\<open>;\<close>); \<open>attempt\<close> is a
  \<^verbatim>\<open>try\<close> block, which turns a thrown error into a value and leaves an exit alone.
\<close>

datatype abort = Thrown error | Exited nat

type_synonym 'a io = "state \<Rightarrow> ((abort + 'a) \<times> state) option"

definition ret :: "'a \<Rightarrow> 'a io" where
  "ret a = (\<lambda>st. Some (Inr a, st))"

definition throw :: "error \<Rightarrow> 'a io" where
  "throw e = (\<lambda>st. Some (Inl (Thrown e), st))"

definition exitWith :: "nat \<Rightarrow> 'a io" where
  "exitWith code = (\<lambda>st. Some (Inl (Exited code), st))"

definition andThen :: "'a io \<Rightarrow> ('a \<Rightarrow> 'b io) \<Rightarrow> 'b io" where
  "andThen m k =
     (\<lambda>st. case m st of
             None \<Rightarrow> None
           | Some (Inl a, st') \<Rightarrow> Some (Inl a, st')
           | Some (Inr x, st') \<Rightarrow> k x st')"

definition attempt :: "'a io \<Rightarrow> (error + 'a) io" where
  "attempt m =
     (\<lambda>st. case m st of
             None \<Rightarrow> None
           | Some (Inl (Thrown e), st') \<Rightarrow> Some (Inr (Inl e), st')
           | Some (Inl (Exited code), st') \<Rightarrow> Some (Inl (Exited code), st')
           | Some (Inr x, st') \<Rightarrow> Some (Inr (Inr x), st'))"

definition logLine :: "logline \<Rightarrow> unit io" where
  "logLine l = (\<lambda>st. Some (Inr (), st\<lparr>out := out st @ [l]\<rparr>))"

definition fsRead :: "(node \<Rightarrow> error + 'a) \<Rightarrow> 'a io" where
  "fsRead f = (\<lambda>st. case f (fs st) of Inl e \<Rightarrow> Some (Inl (Thrown e), st) | Inr x \<Rightarrow> Some (Inr x, st))"

definition fsWrite :: "(node \<Rightarrow> error + node) \<Rightarrow> unit io" where
  "fsWrite f =
     (\<lambda>st. case f (fs st) of Inl e \<Rightarrow> Some (Inl (Thrown e), st) | Inr t \<Rightarrow> Some (Inr (), st\<lparr>fs := t\<rparr>))"

text \<open>A step on the tree that may change it also when it fails.\<close>

definition fsStep :: "(node \<Rightarrow> error option \<times> node) \<Rightarrow> unit io" where
  "fsStep f =
     (\<lambda>st. case f (fs st) of
             (None, t) \<Rightarrow> Some (Inr (), st\<lparr>fs := t\<rparr>)
           | (Some e, t) \<Rightarrow> Some (Inl (Thrown e), st\<lparr>fs := t\<rparr>))"

text \<open>A loop over a list: \<^verbatim>\<open>for (const x of xs)\<close>; a throw or an exit ends it.\<close>

fun forEach :: "'a list \<Rightarrow> ('a \<Rightarrow> unit io) \<Rightarrow> unit io" where
  "forEach [] body = ret ()"
| "forEach (x # xs) body = andThen (body x) (\<lambda>_. forEach xs body)"

text \<open>The decimal digits of a number, as a template literal prints \<^verbatim>\<open>${xs.length}\<close>.\<close>

fun showNat :: "nat \<Rightarrow> string" where
  "showNat n = (if n < 10 then [''0123456789'' ! n] else showNat (n div 10) @ [''0123456789'' ! (n mod 10)])"

declare showNat.simps [simp del]

section \<open>Templates\<close>

text \<open>
  The part of Handlebars the three templates use. A template is a list of pieces: literal
  text, \<^verbatim>\<open>{{name}}\<close>, and \<^verbatim>\<open>{{#each name}} ... {{/each}}\<close> whose body has literal text,
  \<^verbatim>\<open>{{this}}\<close> and \<^verbatim>\<open>{{#unless @last}}text{{/unless}}\<close>. The data are looked up by name
  when the template is rendered; a name that is missing or undefined renders as nothing.
  \<^verbatim>\<open>{{ }}\<close> escapes its value for HTML.
\<close>

datatype hbvalue = Str string | Arr "string list"

datatype item = ILit string | IThis | IUnlessLast string

datatype piece = Lit string | Var string | Each string "item list"

definition escapeChar :: "char \<Rightarrow> string" where
  \<open>escapeChar c =
     (if c = CHR ''&'' then ''&amp;''
      else if c = CHR ''<'' then ''&lt;''
      else if c = CHR ''>'' then ''&gt;''
      else if c = CHR 0x22 then ''&quot;''
      else if c = CHR 0x27 then ''&#x27;''
      else if c = CHR 0x60 then ''&#x60;''
      else if c = CHR ''='' then ''&#x3D;''
      else [c])\<close>

definition escapeExpression :: "string \<Rightarrow> string" where
  "escapeExpression s = concat (map escapeChar s)"

fun renderItem :: "string \<Rightarrow> bool \<Rightarrow> item \<Rightarrow> string" where
  "renderItem this isLast (ILit s) = s"
| "renderItem this isLast IThis = escapeExpression this"
| "renderItem this isLast (IUnlessLast s) = (if isLast then [] else s)"

fun renderEach :: "item list \<Rightarrow> string list \<Rightarrow> string" where
  "renderEach body [] = []"
| "renderEach body (x # xs) = concat (map (renderItem x (xs = [])) body) @ renderEach body xs"

fun renderPiece :: "(string \<times> hbvalue) list \<Rightarrow> piece \<Rightarrow> string" where
  "renderPiece data (Lit s) = s"
| "renderPiece data (Var name) =
     (case map_of data name of
        None \<Rightarrow> []
      | Some (Str s) \<Rightarrow> escapeExpression s
      | Some (Arr xs) \<Rightarrow> escapeExpression (joinWith '','' xs))"
| "renderPiece data (Each name body) =
     (case map_of data name of
        Some (Arr xs) \<Rightarrow> renderEach body xs
      | _ \<Rightarrow> [])"

definition render :: "piece list \<Rightarrow> (string \<times> hbvalue) list \<Rightarrow> string" where
  "render template data = concat (map (renderPiece data) template)"

definition packageJsonTemplate :: "piece list" where
  \<open>packageJsonTemplate =
    [Lit (''{\<newline>''
          @ ''    "name": "@hulo/''),
     Var ''platformName'',
     Lit (''",\<newline>''
          @ ''    "version": "''),
     Var ''version'',
     Lit (''",\<newline>''
          @ ''    "description": "''),
     Var ''description'',
     Lit (''",\<newline>''
          @ ''    "main": "index.js",\<newline>''
          @ ''    "bin": {\<newline>''
          @ ''        "hulo": "./bin/''),
     Var ''binaryName'',
     Lit (''"\<newline>''
          @ ''    },\<newline>''
          @ ''    "files": [\<newline>''
          @ ''        "bin/",\<newline>''
          @ ''        "index.js",\<newline>''
          @ ''        "*.md",\<newline>''
          @ ''        "LICENSE"\<newline>''
          @ ''    ],\<newline>''
          @ ''    "keywords": [''),
     Each ''keywords'' [ILit ''"'', IThis, ILit ''"'', IUnlessLast '', ''],
     Lit (''],\<newline>''
          @ ''    "author": "The Hulo Authors",\<newline>''
          @ ''    "license": "MIT",\<newline>''
          @ ''    "homepage": "https://hulo-lang.github.io/docs/",\<newline>''
          @ ''    "repository": {\<newline>''
          @ ''        "type": "git",\<newline>''
          @ ''        "url": "https://github.com/hulo-lang/hulo.git"\<newline>''
          @ ''    },\<newline>''
          @ ''    "publishConfig": {\<newline>''
          @ ''        "access": "public"\<newline>''
          @ ''    },\<newline>''
          @ ''    "os": ["''),
     Var ''os'',
     Lit (''"],\<newline>''
          @ ''    "cpu": ["''),
     Var ''arch'',
     Lit (''"],\<newline>''
          @ ''    "engines": {\<newline>''
          @ ''        "node": ">=14.0.0"\<newline>''
          @ ''    }\<newline>''
          @ ''}'')]\<close>

definition indexJsTemplate :: "piece list" where
  \<open>indexJsTemplate =
    [Lit (''#!/usr/bin/env node\<newline>''
          @ ''\<newline>''
          @ ''const { spawn } = require('child_process');\<newline>''
          @ ''const path = require('path');\<newline>''
          @ ''\<newline>''
          @ ''// ''
          @ [CHR 0xE8, CHR 0x8E, CHR 0xB7, CHR 0xE5, CHR 0x8F, CHR 0x96, CHR 0xE5, CHR 0x8F, CHR 0xAF, CHR 0xE6, CHR 0x89, CHR 0xA7, CHR 0xE8, CHR 0xA1, CHR 0x8C, CHR 0xE6, CHR 0x96, CHR 0x87, CHR 0xE4, CHR 0xBB, CHR 0xB6, CHR 0xE8, CHR 0xB7, CHR 0xAF, CHR 0xE5, CHR 0xBE, CHR 0x84]
          @ ''\<newline>''
          @ ''const exePath = path.join(__dirname, 'bin', ''
          @ [CHR 0x27]),
     Var ''binaryName'',
     Lit ([CHR 0x27]
          @ '');\<newline>''
          @ ''\<newline>''
          @ ''// ''
          @ [CHR 0xE6, CHR 0x89, CHR 0xA7, CHR 0xE8, CHR 0xA1, CHR 0x8C]
          @ '' hulo ''
          @ [CHR 0xE5, CHR 0x8F, CHR 0xAF, CHR 0xE6, CHR 0x89, CHR 0xA7, CHR 0xE8, CHR 0xA1, CHR 0x8C, CHR 0xE6, CHR 0x96, CHR 0x87, CHR 0xE4, CHR 0xBB, CHR 0xB6]
          @ ''\<newline>''
          @ ''const child = spawn(exePath, process.argv.slice(2), {\<newline>''
          @ ''    stdio: 'inherit',\<newline>''
          @ ''    cwd: process.cwd()\<newline>''
          @ ''});\<newline>''
          @ ''\<newline>''
          @ ''child.on('error', (err) => {\<newline>''
          @ ''    console.error(`Failed to start hulo: ${err.message}`);\<newline>''
          @ ''    process.exit(1);\<newline>''
          @ ''});\<newline>''
          @ ''\<newline>''
          @ ''child.on('close', (code) => {\<newline>''
          @ ''    process.exit(code);\<newline>''
          @ ''});\<newline>'')]\<close>

definition readmeTemplate :: "piece list" where
  \<open>readmeTemplate =
    [Lit ''# @hulo/'',
     Var ''platformName'',
     Lit (''\<newline>''
          @ ''\<newline>''),
     Var ''description'',
     Lit (''\<newline>''
          @ ''\<newline>''
          @ ''## Installation\<newline>''
          @ ''\<newline>''
          @ ''```bash\<newline>''
          @ ''npm install @hulo/''),
     Var ''platformName'',
     Lit (''\<newline>''
          @ ''```\<newline>''
          @ ''\<newline>''
          @ ''## Usage\<newline>''
          @ ''\<newline>''
          @ ''```bash\<newline>''
          @ ''npx @hulo/''),
     Var ''platformName'',
     Lit ('' -V\<newline>''
          @ ''```\<newline>''
          @ ''\<newline>''
          @ ''## Platform\<newline>''
          @ ''\<newline>''
          @ ''- **OS**: ''),
     Var ''os'',
     Lit (''\<newline>''
          @ ''- **Architecture**: ''),
     Var ''arch'',
     Lit (''\<newline>''
          @ ''\<newline>''
          @ ''## License\<newline>''
          @ ''\<newline>''
          @ ''MIT License - see [LICENSE](LICENSE) for details.\<newline>'')]\<close>

section \<open>The post-processor\<close>

subsection \<open>The platform table\<close>

datatype OS = win32 | darwin | linux | freebsd | openbsd | sunos | aix

datatype CPU = x64 | ia32 | arm64 | arm | mips | ppc | ppc64

fun osName :: "OS \<Rightarrow> string" where
  "osName win32 = ''win32''"
| "osName darwin = ''darwin''"
| "osName linux = ''linux''"
| "osName freebsd = ''freebsd''"
| "osName openbsd = ''openbsd''"
| "osName sunos = ''sunos''"
| "osName aix = ''aix''"

fun cpuName :: "CPU \<Rightarrow> string" where
  "cpuName x64 = ''x64''"
| "cpuName ia32 = ''ia32''"
| "cpuName arm64 = ''arm64''"
| "cpuName arm = ''arm''"
| "cpuName mips = ''mips''"
| "cpuName ppc = ''ppc''"
| "cpuName ppc64 = ''ppc64''"

record PlatformDescriptor =
  os :: OS
  arch :: CPU
  description :: string
  "keywords" :: "string list"

definition platformInfo :: "(string \<times> PlatformDescriptor) list" where
  "platformInfo =
    [(''darwin-arm64'', \<lparr>os = darwin, arch = arm64,
        description = ''Hulo compiler for macOS (Apple Silicon)'',
        keywords = [''hulo'', ''compiler'', ''macos'', ''darwin'', ''arm64'', ''apple-silicon'', ''m1'', ''m2'']\<rparr>),
     (''darwin-x86-64'', \<lparr>os = darwin, arch = x64,
        description = ''Hulo compiler for macOS (Intel)'',
        keywords = [''hulo'', ''compiler'', ''macos'', ''darwin'', ''x86_64'', ''intel'']\<rparr>),
     (''linux-arm64'', \<lparr>os = linux, arch = arm64,
        description = ''Hulo compiler for Linux (ARM64)'',
        keywords = [''hulo'', ''compiler'', ''linux'', ''arm64'', ''aarch64'']\<rparr>),
     (''linux-i386'', \<lparr>os = linux, arch = ia32,
        description = ''Hulo compiler for Linux (32-bit)'',
        keywords = [''hulo'', ''compiler'', ''linux'', ''i386'', ''32bit'']\<rparr>),
     (''linux-x86-64'', \<lparr>os = linux, arch = x64,
        description = ''Hulo compiler for Linux (64-bit)'',
        keywords = [''hulo'', ''compiler'', ''linux'', ''x86_64'', ''64bit'']\<rparr>),
     (''windows-arm64'', \<lparr>os = win32, arch = arm64,
        description = ''Hulo compiler for Windows (ARM64)'',
        keywords = [''hulo'', ''compiler'', ''windows'', ''arm64'']\<rparr>),
     (''windows-i386'', \<lparr>os = win32, arch = ia32,
        description = ''Hulo compiler for Windows (32-bit)'',
        keywords = [''hulo'', ''compiler'', ''windows'', ''i386'', ''32bit'']\<rparr>),
     (''windows-x86-64'', \<lparr>os = win32, arch = x64,
        description = ''Hulo compiler for Windows (64-bit)'',
        keywords = [''hulo'', ''compiler'', ''windows'', ''x86_64'', ''64bit'']\<rparr>)]"

text \<open>
  \<^verbatim>\<open>platformInfo[name]\<close> reads a property of an object literal: an entry of the table, or,
  when the table has none of that name, the member of that name that every object
  inherits from \<^verbatim>\<open>Object.prototype\<close>. An inherited member is a function or an object, so
  it is truthy, and it has none of the four fields of a descriptor.
\<close>

definition objectPrototypeKeys :: "string list" where
  "objectPrototypeKeys =
    [''constructor'', ''hasOwnProperty'', ''isPrototypeOf'', ''propertyIsEnumerable'',
     ''toLocaleString'', ''toString'', ''valueOf'', ''__defineGetter__'', ''__defineSetter__'',
     ''__lookupGetter__'', ''__lookupSetter__'', ''__proto__'']"

datatype property = Own PlatformDescriptor | Inherited

definition platformInfoGet :: "string \<Rightarrow> property option" where
  "platformInfoGet name =
     (case map_of platformInfo name of
        Some d \<Rightarrow> Some (Own d)
      | None \<Rightarrow> if name \<in> set objectPrototypeKeys then Some Inherited else None)"

text \<open>The fields read from \<^verbatim>\<open>platformData\<close>, as template data; an undefined field is left out.\<close>

fun descriptionField :: "property \<Rightarrow> (string \<times> hbvalue) list" where
  "descriptionField (Own d) = [(''description'', Str (description d))]"
| "descriptionField Inherited = []"

fun keywordsField :: "property \<Rightarrow> (string \<times> hbvalue) list" where
  "keywordsField (Own d) = [(''keywords'', Arr (keywords d))]"
| "keywordsField Inherited = []"

fun osField :: "property \<Rightarrow> (string \<times> hbvalue) list" where
  "osField (Own d) = [(''os'', Str (osName (os d)))]"
| "osField Inherited = []"

fun archField :: "property \<Rightarrow> (string \<times> hbvalue) list" where
  "archField (Own d) = [(''arch'', Str (cpuName (arch d)))]"
| "archField Inherited = []"

subsection \<open>The file name pattern\<close>

text \<open>
  \<^verbatim>\<open>filename.match(/hulo_(.+?)\.(tar\.gz|zip)/)\<close>: the leftmost place where \<^verbatim>\<open>hulo_\<close>
  starts a match, and there the shortest key that an extension follows. \<^verbatim>\<open>.\<close> matches
  every character but a line terminator. The result is the pair of the two groups.
\<close>

definition isDot :: "char \<Rightarrow> bool" where
  "isDot c = (c \<noteq> CHR 0x0A \<and> c \<noteq> CHR 0x0D)"

fun lazyKey :: "string \<Rightarrow> string \<Rightarrow> (string \<times> string) option" where
  "lazyKey key rest =
     (if startsWith ''.tar.gz'' rest then Some (key, ''tar.gz'')
      else if startsWith ''.zip'' rest then Some (key, ''zip'')
      else (case rest of
              [] \<Rightarrow> None
            | c # cs \<Rightarrow> if isDot c then lazyKey (key @ [c]) cs else None))"

declare lazyKey.simps [simp del]

definition matchAt :: "string \<Rightarrow> (string \<times> string) option" where
  "matchAt s =
     (if startsWith ''hulo_'' s then
        (case drop 5 s of
           [] \<Rightarrow> None
         | c # cs \<Rightarrow> if isDot c then lazyKey [c] cs else None)
      else None)"

fun matchHulo :: "string \<Rightarrow> (string \<times> string) option" where
  "matchHulo s =
     (case matchAt s of
        Some groups \<Rightarrow> Some groups
      | None \<Rightarrow> (case s of [] \<Rightarrow> None | c # cs \<Rightarrow> matchHulo cs))"

declare matchHulo.simps [simp del]

text \<open>\<^verbatim>\<open>toLowerCase()\<close> on the code units below 256, and \<^verbatim>\<open>replace(/_/g, '-')\<close>.\<close>

definition upperChars :: string where
  "upperChars = ''ABCDEFGHIJKLMNOPQRSTUVWXYZ'' @
     [CHR 0xC0, CHR 0xC1, CHR 0xC2, CHR 0xC3, CHR 0xC4, CHR 0xC5, CHR 0xC6, CHR 0xC7,
      CHR 0xC8, CHR 0xC9, CHR 0xCA, CHR 0xCB, CHR 0xCC, CHR 0xCD, CHR 0xCE, CHR 0xCF,
      CHR 0xD0, CHR 0xD1, CHR 0xD2, CHR 0xD3, CHR 0xD4, CHR 0xD5, CHR 0xD6,
      CHR 0xD8, CHR 0xD9, CHR 0xDA, CHR 0xDB, CHR 0xDC, CHR 0xDD, CHR 0xDE]"

definition lowerChars :: string where
  "lowerChars = ''abcdefghijklmnopqrstuvwxyz'' @
     [CHR 0xE0, CHR 0xE1, CHR 0xE2, CHR 0xE3, CHR 0xE4, CHR 0xE5, CHR 0xE6, CHR 0xE7,
      CHR 0xE8, CHR 0xE9, CHR 0xEA, CHR 0xEB, CHR 0xEC, CHR 0xED, CHR 0xEE, CHR 0xEF,
      CHR 0xF0, CHR 0xF1, CHR 0xF2, CHR 0xF3, CHR 0xF4, CHR 0xF5, CHR 0xF6,
      CHR 0xF8, CHR 0xF9, CHR 0xFA, CHR 0xFB, CHR 0xFC, CHR 0xFD, CHR 0xFE]"

definition toLowerCase :: "string \<Rightarrow> string" where
  "toLowerCase s =
     map (\<lambda>c. case map_of (zip upperChars lowerChars) c of Some l \<Rightarrow> l | None \<Rightarrow> c) s"

definition replaceAll :: "char \<Rightarrow> char \<Rightarrow> string \<Rightarrow> string" where
  "replaceAll a b s = map (\<lambda>c. if c = a then b else c) s"

subsection \<open>Extraction and relocation\<close>

text \<open>
  A child process is the environment's: it changes the file tree and ends with a code.
  The promise of \<^verbatim>\<open>extractFile\<close> resolves on code 0 and rejects otherwise.
\<close>

definition runChild :: "env \<Rightarrow> string \<Rightarrow> string list \<Rightarrow> unit io" where
  "runChild E cmd args =
     (\<lambda>st. case spawn E cmd args (fs st) of
             (Closed code, t) \<Rightarrow>
               if code = Some 0 then Some (Inr (), st\<lparr>fs := t\<rparr>)
               else Some (Inl (Thrown (ToolFailed cmd code)), st\<lparr>fs := t\<rparr>)
           | (NotSpawned, t) \<Rightarrow> Some (Inl (Thrown (SpawnFailed cmd)), st\<lparr>fs := t\<rparr>))"

text \<open>
  \<^verbatim>\<open>cmd\<close> and \<^verbatim>\<open>args\<close> of \<^verbatim>\<open>extractFile\<close>: PowerShell on Windows and \<^verbatim>\<open>unzip\<close> elsewhere for a
  \<^verbatim>\<open>.zip\<close>, \<^verbatim>\<open>tar\<close> otherwise.
\<close>

definition extractCommand :: "env \<Rightarrow> bool \<Rightarrow> string \<Rightarrow> string \<Rightarrow> string \<times> string list" where
  \<open>extractCommand E isZip filePath extractDir =
     (if isZip then
        (if platform E = ''win32''
         then (''powershell'',
               [''-Command'',
                ''Expand-Archive -Path "'' @ filePath @ ''" -DestinationPath "'' @ extractDir @ ''" -Force''])
         else (''unzip'', [''-o'', filePath, ''-d'', extractDir]))
      else (''tar'', [''-xzf'', filePath, ''-C'', extractDir]))\<close>

definition extractFile :: "env \<Rightarrow> string \<Rightarrow> string \<Rightarrow> unit io" where
  "extractFile E filePath extractDir =
     (let isZip = endsWith ''.zip'' filePath;
          isTar = endsWith ''.tar.gz'' filePath
      in if \<not> isZip \<and> \<not> isTar
         then fsWrite (copyFile E filePath (join [extractDir, basename filePath]))
         else (case extractCommand E isZip filePath extractDir of
                 (cmd, args) \<Rightarrow> runChild E cmd args))"

text \<open>
  \<^verbatim>\<open>copyDirectory(source, target)\<close> lists \<open>source\<close> and loops over its entries; for a
  directory it makes the target directory and calls itself. \<open>copyLoop\<close> is the loop, with
  the recursive call unfolded into it: the listing of the subdirectory, then its loop. A
  copy into a directory below its own source does not end; then the result is \<open>None\<close>.
\<close>

partial_function (option) copyLoop ::
  "env \<Rightarrow> string \<Rightarrow> string \<Rightarrow> (string \<times> bool) list \<Rightarrow> state \<Rightarrow> ((abort + unit) \<times> state) option" where
  "copyLoop E source target entries st =
     (case entries of
        [] \<Rightarrow> Some (Inr (), st)
      | (name, isDirectory) # rest \<Rightarrow>
          (let sourcePath = join [source, name];
               targetPath = join [target, name]
           in if isDirectory then
                (case fsWrite (mkdir E targetPath) st of
                   None \<Rightarrow> None
                 | Some (Inl a, st1) \<Rightarrow> Some (Inl a, st1)
                 | Some (Inr _, st1) \<Rightarrow>
                     (case fsRead (readdirTypes E sourcePath) st1 of
                        None \<Rightarrow> None
                      | Some (Inl a, st2) \<Rightarrow> Some (Inl a, st2)
                      | Some (Inr sub, st2) \<Rightarrow>
                          Option.bind (copyLoop E sourcePath targetPath sub st2)
                            (\<lambda>r. case r of
                                   (Inl a, st3) \<Rightarrow> Some (Inl a, st3)
                                 | (Inr _, st3) \<Rightarrow> copyLoop E source target rest st3)))
              else
                (case fsWrite (copyFile E sourcePath targetPath) st of
                   None \<Rightarrow> None
                 | Some (Inl a, st1) \<Rightarrow> Some (Inl a, st1)
                 | Some (Inr _, st1) \<Rightarrow> copyLoop E source target rest st1)))"

declare copyLoop.simps [code]

definition copyDirectory :: "env \<Rightarrow> string \<Rightarrow> string \<Rightarrow> unit io" where
  "copyDirectory E source target =
     andThen (fsRead (readdirTypes E source)) (\<lambda>entries. copyLoop E source target entries)"

subsection \<open>The generated files\<close>

definition packageJsonData ::
  "string \<Rightarrow> string \<Rightarrow> property \<Rightarrow> string \<Rightarrow> (string \<times> hbvalue) list" where
  "packageJsonData platformName version platformData binaryName =
     [(''platformName'', Str platformName), (''version'', Str version)]
     @ descriptionField platformData
     @ [(''binaryName'', Str binaryName)]
     @ keywordsField platformData @ osField platformData @ archField platformData"

definition indexJsData :: "string \<Rightarrow> (string \<times> hbvalue) list" where
  "indexJsData binaryName = [(''binaryName'', Str binaryName)]"

definition readmeData :: "string \<Rightarrow> property \<Rightarrow> (string \<times> hbvalue) list" where
  "readmeData platformName platformData =
     [(''platformName'', Str platformName)]
     @ descriptionField platformData @ osField platformData @ archField platformData"

text \<open>The three generated texts: \<^verbatim>\<open>packageJson\<close>, \<^verbatim>\<open>indexJs\<close> and \<^verbatim>\<open>readme\<close> of \<^verbatim>\<open>main\<close>.\<close>

definition packageJson :: "string \<Rightarrow> string \<Rightarrow> property \<Rightarrow> string \<Rightarrow> string" where
  "packageJson platformName version platformData binaryName =
     render packageJsonTemplate (packageJsonData platformName version platformData binaryName)"

definition indexJs :: "string \<Rightarrow> string" where
  "indexJs binaryName = render indexJsTemplate (indexJsData binaryName)"

definition readme :: "string \<Rightarrow> property \<Rightarrow> string" where
  "readme platformName platformData = render readmeTemplate (readmeData platformName platformData)"

subsection \<open>One entry of the manifest\<close>

definition binaryNameOf :: "string \<Rightarrow> string" where
  "binaryNameOf platformName = (if startsWith ''windows'' platformName then ''hulo.exe'' else ''hulo'')"

definition platformDirOf :: "env \<Rightarrow> string \<Rightarrow> string" where
  "platformDirOf E platformName = join [cwd E, ''temp'', ''packages'', ''hulo-'' @ platformName]"

text \<open>
  The body of the loop from the creation of the platform directory on, in its parts: the
  archive is unpacked into the platform directory (\<open>relocate\<close>, up to the call of
  \<open>moveToBin\<close>), the binary and \<^verbatim>\<open>std\<close> are moved below \<^verbatim>\<open>bin\<close> (\<open>moveToBin\<close>), and the three
  files are generated (\<open>generateFiles\<close>).
\<close>

definition moveToBin :: "env \<Rightarrow> string \<Rightarrow> unit io" where
  "moveToBin E platformName =
     (let platformDir = platformDirOf E platformName;
          binDir = join [platformDir, ''bin''];
          binaryName = binaryNameOf platformName;
          sourceBinary = join [platformDir, binaryName];
          targetBinary = join [binDir, binaryName];
          sourceStd = join [platformDir, ''std''];
          targetStd = join [binDir, ''std'']
      in
      andThen (fsWrite (mkdir E binDir)) (\<lambda>_.
      andThen (logLine (Line (''Moving '' @ binaryName @ '' to bin/ directory...''))) (\<lambda>_.
      andThen (fsWrite (copyFile E sourceBinary targetBinary)) (\<lambda>_.
      andThen (logLine (Line ''Moving std/ directory to bin/ directory...'')) (\<lambda>_.
      andThen (copyDirectory E sourceStd targetStd) (\<lambda>_.
      andThen (fsStep (rmSync E sourceBinary False True)) (\<lambda>_.
      fsStep (rmSync E sourceStd True True))))))))"

definition relocate :: "env \<Rightarrow> string \<Rightarrow> string \<Rightarrow> unit io" where
  "relocate E platformName filePath =
     (let platformDir = platformDirOf E platformName;
          extractDir = platformDir
      in
      andThen (fsWrite (mkdir E platformDir)) (\<lambda>_.
      andThen (logLine (Line ''Extracting files...'')) (\<lambda>_.
      andThen (extractFile E filePath extractDir) (\<lambda>_.
      andThen (logLine (Line (''Extracted to: '' @ extractDir))) (\<lambda>_.
      moveToBin E platformName)))))"

definition generateFiles :: "env \<Rightarrow> string \<Rightarrow> string \<Rightarrow> property \<Rightarrow> unit io" where
  "generateFiles E version platformName platformData =
     (let platformDir = platformDirOf E platformName;
          binaryName = binaryNameOf platformName
      in
      andThen (fsWrite (writeFile E (join [platformDir, ''package.json''])
                 (packageJson platformName version platformData binaryName))) (\<lambda>_.
      andThen (fsWrite (writeFile E (join [platformDir, ''index.js'']) (indexJs binaryName))) (\<lambda>_.
      andThen (fsWrite (writeFile E (join [platformDir, ''README.md''])
                 (readme platformName platformData))) (\<lambda>_.
      logLine (Line (''Created package for '' @ platformName))))))"

definition buildPackage :: "env \<Rightarrow> string \<Rightarrow> string \<Rightarrow> property \<Rightarrow> string \<Rightarrow> unit io" where
  "buildPackage E version platformName platformData filePath =
     andThen (relocate E platformName filePath) (\<lambda>_.
     generateFiles E version platformName platformData)"

definition processEntry :: "env \<Rightarrow> string \<Rightarrow> ChecksumEntry \<Rightarrow> unit io" where
  "processEntry E version entry =
     (case matchHulo (filename entry) of
        None \<Rightarrow> logLine (Line (''Skipping unknown format: '' @ filename entry))
      | Some (platformKey, ext) \<Rightarrow>
          (let platformName = replaceAll (CHR ''_'') (CHR ''-'') (toLowerCase platformKey) in
           case platformInfoGet platformName of
             None \<Rightarrow>
               logLine (Line (''Skipping unknown platform: '' @ platformKey @ '' ('' @ filename entry @ '')''))
           | Some _ \<Rightarrow>
              (case platformInfoGet platformName of
                 None \<Rightarrow> logLine (Line (''No platform info for: '' @ platformName))
               | Some platformData \<Rightarrow>
                   andThen (logLine (Line (''Processing '' @ platformName))) (\<lambda>_.
                   andThen (logLine (Line (''File: '' @ filename entry))) (\<lambda>_.
                   (let filePath = join [join [cwd E, ''temp''], filename entry] in
                    andThen (attempt (fsRead (readFile E filePath))) (\<lambda>found.
                      case found of
                        Inl _ \<Rightarrow> logLine (Line (''File not found: '' @ filename entry))
                      | Inr _ \<Rightarrow> buildPackage E version platformName platformData filePath)))))))"

subsection \<open>The run\<close>

text \<open>
  The exit code of a run: the code given to \<^verbatim>\<open>process.exit\<close>, and 0 when \<^verbatim>\<open>main\<close> returns.
  An error that leaves \<^verbatim>\<open>main\<close> is printed by \<^verbatim>\<open>main().catch(console.error)\<close> and the
  process ends with code 0.
\<close>

fun exitCode :: "(abort + unit) \<Rightarrow> nat" where
  "exitCode (Inr _) = 0"
| "exitCode (Inl (Exited code)) = code"
| "exitCode (Inl (Thrown _)) = 0"

text \<open>\<^verbatim>\<open>try { body } catch (error) { console.log(... error.message ...); process.exit(1) }\<close>.\<close>

definition orExit :: "unit io \<Rightarrow> unit io" where
  "orExit body =
     andThen (attempt body) (\<lambda>r.
       case r of
         Inl e \<Rightarrow> andThen (logLine (ErrorLine [] e)) (\<lambda>_. exitWith 1)
       | Inr _ \<Rightarrow> ret ())"

definition installerVersion :: "env \<Rightarrow> string" where
  "installerVersion E = (case argv2 E of None \<Rightarrow> ''0.1.0'' | Some v \<Rightarrow> if v = [] then ''0.1.0'' else v)"

text \<open>The body of the \<^verbatim>\<open>try\<close> block of \<^verbatim>\<open>main\<close>.\<close>

definition installerTry :: "env \<Rightarrow> unit io" where
  "installerTry E =
     (let version = installerVersion E;
          tempDir = join [cwd E, ''temp''];
          checksumsPath = join [tempDir, ''checksums.txt'']
      in
      andThen (attempt (fsRead (readdir E tempDir))) (\<lambda>r.
      andThen (case r of
                 Inl _ \<Rightarrow> andThen (logLine (Line ''Error: temp directory not found. Please run prepare.ts first.''))
                            (\<lambda>_. exitWith 1)
               | Inr _ \<Rightarrow> ret ()) (\<lambda>_.
      andThen (fsRead (readFile E checksumsPath)) (\<lambda>checksumsText.
      (let checksums = parseChecksums checksumsText in
       andThen (logLine (Line (''Found '' @ showNat (length checksums) @ '' files in checksums.txt''))) (\<lambda>_.
       andThen (fsRead (readdir E tempDir)) (\<lambda>tempFiles.
       andThen (logLine (Line (''Found '' @ showNat (length tempFiles) @ '' files in temp directory''))) (\<lambda>_.
       andThen (forEach checksums (processEntry E version)) (\<lambda>_.
       andThen (logLine (Line ''All packages processed successfully!'')) (\<lambda>_.
       logLine (Line ''Check the packages/ directory for individual platform packages'')))))))))))"

definition installerBody :: "env \<Rightarrow> unit io" where
  "installerBody E =
     andThen (logLine (Line ''Starting post-processing...'')) (\<lambda>_. orExit (installerTry E))"

text \<open>The exit code and the final state of a run of the post-processor.\<close>

definition installerMain :: "env \<Rightarrow> state \<Rightarrow> (nat \<times> state) option" where
  "installerMain E st = map_option (\<lambda>(r, st'). (exitCode r, st')) (installerBody E st)"

section \<open>The downloader\<close>

text \<open>
  A request is sent, which records its URL in \<open>reqs\<close>, and later the environment answers it.
\<close>

definition send :: "string \<Rightarrow> unit io" where
  "send url = (\<lambda>st. Some (Inr (), st\<lparr>reqs := reqs st @ [url]\<rparr>))"

text \<open>
  \<^verbatim>\<open>downloadText\<close> asks for no response type, so the client collects the body and
  transforms it before the promise resolves: a body that is not empty and is JSON is replaced
  by its value. A response that breaks off rejects the promise, as one that does not come.
\<close>

definition transformResponse :: "env \<Rightarrow> string \<Rightarrow> jsdata" where
  "transformResponse E body =
     (if body = [] then JString body
      else (case parseJSON E body of Some v \<Rightarrow> v | None \<Rightarrow> JString body))"

definition downloadText :: "env \<Rightarrow> string \<Rightarrow> jsdata io" where
  "downloadText E url =
     andThen (send url) (\<lambda>_ st.
       case httpGet E url of
         Complete body \<Rightarrow> Some (Inr (transformResponse E body), st)
       | _ \<Rightarrow> Some (Inl (Thrown (HttpFailed url)), st))"

text \<open>
  \<^verbatim>\<open>downloadFile\<close> asks for a stream: when the response has started, a write stream is
  opened on the destination and the response is piped into it. The promise resolves when the
  write stream has finished and rejects when the write stream fails; nothing listens to the
  response. So when the response breaks off and the destination could be opened, the promise
  is never settled. \<open>pipeResponse\<close> is the part of the function after the request is sent.
\<close>

definition createWriteStream :: "env \<Rightarrow> string \<Rightarrow> string \<Rightarrow> node \<Rightarrow> error + node" where
  "createWriteStream E p content t = (if denied E OpOpen p then Inl (EACCES p) else storeFile p content t)"

definition pipeResponse :: "env \<Rightarrow> string \<Rightarrow> string \<Rightarrow> unit io" where
  "pipeResponse E url destPath =
     (\<lambda>st. case httpGet E url of
             NoResponse \<Rightarrow> Some (Inl (Thrown (HttpFailed url)), st)
           | Complete body \<Rightarrow> fsWrite (createWriteStream E destPath body) st
           | BrokenOff \<Rightarrow>
               (case createWriteStream E destPath [] (fs st) of
                  Inl e \<Rightarrow> Some (Inl (Thrown e), st)
                | Inr _ \<Rightarrow> None))"

definition downloadFile :: "env \<Rightarrow> string \<Rightarrow> string \<Rightarrow> unit io" where
  "downloadFile E url destPath = andThen (send url) (\<lambda>_. pipeResponse E url destPath)"

text \<open>What one download promise resolves to: \<^verbatim>\<open>{ success, filename, error? }\<close>.\<close>

record DownloadResult =
  success :: bool
  dlFilename :: string
  dlError :: "error option"

text \<open>
  The function mapped over the entries, \<^verbatim>\<open>async (entry) => { try ... catch ... }\<close>. A
  call of it runs at once up to the point where \<^verbatim>\<open>downloadFile\<close> waits for its response
  (\<open>downloadStarted\<close>: the line \<^verbatim>\<open>Downloading\<close> and the request); the rest of it runs
  when the response has come (\<open>downloadSettled\<close>). \<open>downloadEntry\<close> is the whole function,
  as it runs when nothing else runs between its two parts.
\<close>

definition downloadStarted :: "string \<Rightarrow> ChecksumEntry \<Rightarrow> unit io" where
  "downloadStarted baseUrl entry =
     andThen (logLine (Line (''Downloading '' @ filename entry))) (\<lambda>_.
     send (baseUrl @ ''/'' @ filename entry))"

definition downloadSettled :: "env \<Rightarrow> string \<Rightarrow> string \<Rightarrow> ChecksumEntry \<Rightarrow> DownloadResult io" where
  "downloadSettled E baseUrl tempDir entry =
     (let downloadPath = join [tempDir, filename entry] in
      andThen (attempt (pipeResponse E (baseUrl @ ''/'' @ filename entry) downloadPath)) (\<lambda>r.
        case r of
          Inr _ \<Rightarrow>
            andThen (logLine (Line (''Downloaded '' @ filename entry))) (\<lambda>_.
            ret \<lparr>success = True, dlFilename = filename entry, dlError = None\<rparr>)
        | Inl e \<Rightarrow>
            andThen (logLine (Line (''Failed to download '' @ filename entry))) (\<lambda>_.
            ret \<lparr>success = False, dlFilename = filename entry, dlError = Some e\<rparr>)))"

definition downloadEntry :: "env \<Rightarrow> string \<Rightarrow> string \<Rightarrow> ChecksumEntry \<Rightarrow> DownloadResult io" where
  "downloadEntry E baseUrl tempDir entry =
     andThen (downloadStarted baseUrl entry) (\<lambda>_. downloadSettled E baseUrl tempDir entry)"

text \<open>
  \<^verbatim>\<open>Promise.all(checksums.map(...))\<close>: \<^verbatim>\<open>map\<close> starts every download, in the order of the
  manifest, before any response is handled. The responses are handled in the order in which
  they come in, which is the environment's: \<open>settleOrder\<close> lists the indices of the entries
  by the time of arrival. The results are in the order of the entries. When one of the
  promises is never settled, neither is the promise of \<^verbatim>\<open>Promise.all\<close>.
\<close>

definition settleOrder :: "env \<Rightarrow> nat \<Rightarrow> nat list" where
  "settleOrder E n = sort_key (arrival E) [0..<n]"

fun settleIn ::
  "env \<Rightarrow> string \<Rightarrow> string \<Rightarrow> ChecksumEntry list \<Rightarrow> nat list \<Rightarrow> (nat \<times> DownloadResult) list io" where
  "settleIn E baseUrl tempDir entries [] = ret []"
| "settleIn E baseUrl tempDir entries (i # rest) =
     andThen (downloadSettled E baseUrl tempDir (entries ! i)) (\<lambda>r.
     andThen (settleIn E baseUrl tempDir entries rest) (\<lambda>rs. ret ((i, r) # rs)))"

definition downloadAll :: "env \<Rightarrow> string \<Rightarrow> string \<Rightarrow> ChecksumEntry list \<Rightarrow> DownloadResult list io" where
  "downloadAll E baseUrl tempDir entries =
     andThen (forEach entries (downloadStarted baseUrl)) (\<lambda>_.
     andThen (settleIn E baseUrl tempDir entries (settleOrder E (length entries))) (\<lambda>settled.
     ret (map snd (sort_key fst settled))))"

definition fetcherVersion :: "env \<Rightarrow> string" where
  "fetcherVersion E = (case argv2 E of None \<Rightarrow> ''v0.1.0'' | Some v \<Rightarrow> if v = [] then ''v0.1.0'' else v)"

definition baseUrlOf :: "env \<Rightarrow> string" where
  "baseUrlOf E = ''https://github.com/hulo-lang/hulo/releases/download/'' @ fetcherVersion E"

text \<open>The first \<^verbatim>\<open>try\<close> block of \<^verbatim>\<open>main\<close>: the staging directory is cleared.\<close>

definition clearTemp :: "env \<Rightarrow> string \<Rightarrow> unit io" where
  "clearTemp E tempDir =
     andThen (attempt (
       andThen (fsStep (rmSync E tempDir True True)) (\<lambda>_.
       andThen (attempt (fsRead (readdir E tempDir))) (\<lambda>r.
       andThen (case r of
                  Inr remainingFiles \<Rightarrow>
                    if length remainingFiles > 0 then
                      andThen (logLine (Line (''Error: Temp directory not cleared! Remaining files: ''
                                 @ joinWith '', '' remainingFiles))) (\<lambda>_. exitWith 1)
                    else ret ()
                | Inl _ \<Rightarrow> ret ()) (\<lambda>_.
       logLine (Line ''Temp directory cleared successfully''))))))
     (\<lambda>r. case r of
            Inl e \<Rightarrow> andThen (logLine (ErrorLine ''Failed to clear temp directory: '' e)) (\<lambda>_. exitWith 1)
          | Inr _ \<Rightarrow> ret ())"

text \<open>
  The second \<^verbatim>\<open>try\<close> block: the manifest, then the downloads and their summary. The data of
  the manifest's response are parsed as they come: \<^verbatim>\<open>content.split\<close> throws when they are
  no string.
\<close>

definition fetchAll :: "env \<Rightarrow> string \<Rightarrow> unit io" where
  "fetchAll E tempDir =
     (let baseUrl = baseUrlOf E in
      orExit (
        andThen (fsWrite (mkdir E tempDir)) (\<lambda>_.
        andThen (logLine (Line ''Fetching checksums...'')) (\<lambda>_.
        andThen (downloadText E (baseUrl @ ''/checksums.txt'')) (\<lambda>responseData.
        andThen (logLine (Line ''Checksums fetched successfully'')) (\<lambda>_.
        (case responseData of
           JOther \<Rightarrow> throw (TypeError ''content.split is not a function'')
         | JString checksumsText \<Rightarrow>
        (let checksums = parseChecksums checksumsText in
         andThen (logLine (Line (''Found '' @ showNat (length checksums) @ '' files to download''))) (\<lambda>_.
         andThen (fsWrite (writeFile E (join [tempDir, ''checksums.txt'']) checksumsText)) (\<lambda>_.
         andThen (logLine (Line ''Starting concurrent downloads...'')) (\<lambda>_.
         andThen (downloadAll E baseUrl tempDir checksums) (\<lambda>results.
         (let successCount = length (filter success results);
              failCount = length (filter (\<lambda>r. \<not> success r) results)
          in
          andThen (logLine (Line ''Download Summary'')) (\<lambda>_.
          andThen (logLine (Line (''Successfully downloaded: '' @ showNat successCount @ '' files''))) (\<lambda>_.
          andThen (if failCount > 0
                   then logLine (Line (''Failed to download: '' @ showNat failCount @ '' files''))
                   else ret ()) (\<lambda>_.
          andThen (logLine (Line ''All files downloaded successfully!'')) (\<lambda>_.
          logLine (Line ''Check the temp/ directory for downloaded files''))))))))))))))))))"

definition fetcherBody :: "env \<Rightarrow> unit io" where
  "fetcherBody E =
     (let tempDir = join [cwd E, ''temp''] in
      andThen (logLine (Line ''Clearing temp directory...'')) (\<lambda>_.
      andThen (clearTemp E tempDir) (\<lambda>_.
      andThen (logLine (Line ''Starting Hulo downloader...'')) (\<lambda>_.
      fetchAll E tempDir))))"

text \<open>
  The exit code and the final state of a run of the downloader; there is none when \<^verbatim>\<open>main\<close>
  waits for a promise that is never settled.
\<close>

definition fetcherMain :: "env \<Rightarrow> state \<Rightarrow> (nat \<times> state) option" where
  "fetcherMain E st = map_option (\<lambda>(r, st'). (exitCode r, st')) (fetcherBody E st)"

section \<open>Reading the results of a run\<close>

text \<open>The content of the file at a path of the final state, when there is one.\<close>

definition fileText :: "state \<Rightarrow> string \<Rightarrow> string option" where
  "fileText st p = (case nodeAt (fs st) (segments p) of Some (File content) \<Rightarrow> Some content | _ \<Rightarrow> None)"

text \<open>
  A step that returned, and the state it left; the state and the exit code with which a run
  ended; the exit code of a run together with the nodes its final tree has at the given
  paths.
\<close>

definition completed :: "((abort + unit) \<times> state) option \<Rightarrow> bool" where
  "completed r = (case r of Some (Inr _, _) \<Rightarrow> True | _ \<Rightarrow> False)"

definition finalState :: "((abort + unit) \<times> state) option \<Rightarrow> state" where
  "finalState r = snd (the r)"

definition endState :: "(nat \<times> state) option \<Rightarrow> state" where
  "endState r = snd (the r)"

definition exitOf :: "(nat \<times> state) option \<Rightarrow> nat option" where
  "exitOf r = map_option fst r"

definition outcome :: "(nat \<times> state) option \<Rightarrow> string list list \<Rightarrow> (nat \<times> node option list) option" where
  "outcome r paths = map_option (\<lambda>(code, st). (code, map (nodeAt (fs st)) paths)) r"

text \<open>
  A step that ends early only by throwing, and a step whose calls of \<^verbatim>\<open>process.exit\<close> all
  give the code 1.
\<close>

definition throwsOnly :: "'a io \<Rightarrow> bool" where
  "throwsOnly m = (\<forall>st a st'. m st = Some (Inl a, st') \<longrightarrow> (\<exists>e. a = Thrown e))"

definition exitsOne :: "'a io \<Rightarrow> bool" where
  "exitsOne m = (\<forall>st c st'. m st = Some (Inl (Exited c), st') \<longrightarrow> c = 1)"




text \<open>
  What a package descriptor declares, read off its lines: a string member
  \<^verbatim>\<open>"key": "value",\<close> and a member whose value is a list of one string,
  \<^verbatim>\<open>"key": ["value"],\<close>, each on a line of its own at the indentation of the top level.
\<close>

definition declares :: "string \<Rightarrow> string \<Rightarrow> string \<Rightarrow> bool" where
  \<open>declares text key v = ((''    "'' @ key @ ''": "'' @ v @ ''",'') \<in> set (splitOn LF text))\<close>

definition declaresOne :: "string \<Rightarrow> string \<Rightarrow> string \<Rightarrow> bool" where
  \<open>declaresOne text key v = ((''    "'' @ key @ ''": ["'' @ v @ ''"],'') \<in> set (splitOn LF text))\<close>


text \<open>A single path segment: a name that is not empty, not \<^verbatim>\<open>.\<close> or \<^verbatim>\<open>..\<close>, and has no separator.\<close>

definition plainName :: "string \<Rightarrow> bool" where
  "plainName n = (n \<noteq> [] \<and> n \<noteq> ''.'' \<and> n \<noteq> ''..'' \<and> CHR ''/'' \<notin> set n)"

text \<open>
  Two lines of a manifest that are equal except for the hash token: the same white space
  before the hash, the same text after it, and a hash in both or in neither.
\<close>

definition hashOf :: "string \<Rightarrow> string" where
  "hashOf line = takeWhile (\<lambda>x. \<not> isWhite x) (dropWhile isWhite line)"

definition restOf :: "string \<Rightarrow> string" where
  "restOf line = dropWhile (\<lambda>x. \<not> isWhite x) (dropWhile isWhite line)"

definition sameExceptHash :: "string \<Rightarrow> string \<Rightarrow> bool" where
  "sameExceptHash l1 l2 =
     (takeWhile isWhite l1 = takeWhile isWhite l2 \<and> restOf l1 = restOf l2
      \<and> ((hashOf l1 = []) = (hashOf l2 = [])))"

text \<open>The entries of a manifest whose downloads succeeded, given the results in the order of the entries.\<close>

definition succeeded :: "ChecksumEntry list \<Rightarrow> DownloadResult list \<Rightarrow> ChecksumEntry list" where
  "succeeded entries results = map fst (filter (\<lambda>(e, r). success r) (zip entries results))"

section \<open>A sample environment\<close>

text \<open>
  The concrete inputs of the theorems that run the scripts. \<open>sampleTar\<close> is a \<^verbatim>\<open>tar\<close> that
  unpacks the given entries at the top level of the directory named after \<^verbatim>\<open>-C\<close> and ends
  with code 0; no other command can be started. The run is in \<^verbatim>\<open>/w\<close> on Linux, the
  operating system refuses nothing, the server answers from a table with whole bodies, no
  body is JSON, and the responses of concurrent downloads come in in the order of the
  requests.
\<close>

definition sampleTar :: "(string \<times> node) list \<Rightarrow> string \<Rightarrow> string list \<Rightarrow> node \<Rightarrow> childExit \<times> node" where
  "sampleTar contents cmd args t =
     (if cmd = ''tar'' \<and> length args = 4
      then (Closed (Some 0),
            foldl (\<lambda>t' (name, n). putNode (segments (args ! 3) @ [name]) n t') t contents)
      else (NotSpawned, t))"

definition sampleEnv :: "string \<Rightarrow> (string \<times> node) list \<Rightarrow> (string \<times> string) list \<Rightarrow> env" where
  "sampleEnv v contents server =
     \<lparr>argv2 = Some v, cwd = ''/w'', platform = ''linux'', denied = (\<lambda>_ _. False),
      rmFailure = (\<lambda>_ _. None), spawn = sampleTar contents,
      httpGet = (\<lambda>url. case map_of server url of Some body \<Rightarrow> Complete body | None \<Rightarrow> NoResponse),
      parseJSON = (\<lambda>_. None), arrival = (\<lambda>i. i)\<rparr>"

text \<open>The staging directory after a download: the manifest and one staged file.\<close>

definition staged :: "string \<Rightarrow> string \<Rightarrow> state" where
  "staged manifest archive =
     \<lparr>fs = Dir [(''w'', Dir [(''temp'',
              Dir [(''checksums.txt'', File manifest), (archive, File ''archive bytes'')])])],
      out = [], reqs = []\<rparr>"

text \<open>An archive with the binary and a \<^verbatim>\<open>std\<close> directory that holds one subdirectory.\<close>

definition sampleArchive :: "(string \<times> node) list" where
  "sampleArchive = [(''hulo'', File ''ELF''), (''std'', Dir [(''core'', Dir [(''io.hl'', File ''fn'')])])]"

text \<open>The entry of the platform table for \<^verbatim>\<open>linux-x86-64\<close>, as \<^verbatim>\<open>platformInfo[...]\<close> returns it.\<close>

definition linuxData :: property where
  "linuxData = Own \<lparr>os = linux, arch = x64, description = ''Hulo compiler for Linux (64-bit)'',
     keywords = [''hulo'', ''compiler'', ''linux'', ''x86_64'', ''64bit'']\<rparr>"

text \<open>A staging directory whose manifest lists \<^verbatim>\<open>hulo_Linux_x86_64.tar.gz\<close>, and that entry.\<close>

definition linuxStaged :: state where
  "linuxStaged = staged ''abc  hulo_Linux_x86_64.tar.gz'' ''hulo_Linux_x86_64.tar.gz''"

definition linuxEntry :: ChecksumEntry where
  "linuxEntry = \<lparr>hash = ''abc'', filename = ''hulo_Linux_x86_64.tar.gz''\<rparr>"

text \<open>
  A release server for the version \<^verbatim>\<open>v1.2.3\<close>: it has the manifest, which lists two
  archives, and the first of the two archives only.
\<close>

definition sampleManifest :: string where
  "sampleManifest = ''abc  hulo_Linux_x86_64.tar.gz'' @ [LF] @ ''def  hulo_Darwin_arm64.tar.gz''"

definition sampleServer :: "(string \<times> string) list" where
  "sampleServer =
    [(''https://github.com/hulo-lang/hulo/releases/download/v1.2.3/checksums.txt'', sampleManifest),
     (''https://github.com/hulo-lang/hulo/releases/download/v1.2.3/hulo_Linux_x86_64.tar.gz'', ''archive bytes'')]"

text \<open>The state before a download: the working directory is empty.\<close>

definition emptyStart :: state where
  "emptyStart = \<lparr>fs = Dir [(''w'', Dir [])], out = [], reqs = []\<rparr>"

text \<open>
  A manifest with the hash \<open>h\<close> on both of its lines: the archive, and an entry whose staged
  path is the path of the manifest itself.
\<close>

definition selfListingManifest :: "string \<Rightarrow> string" where
  "selfListingManifest h =
     h @ ''  hulo_Linux_x86_64.tar.gz'' @ [LF] @ h @ ''  hulo_Linux_x86_64.tar.gz/../checksums.txt''"








text \<open>
  The sample server, except that its response with the archive of \<^verbatim>\<open>Linux_x86_64\<close> starts
  and then breaks off.
\<close>

definition breakingEnv :: env where
  "breakingEnv =
     (sampleEnv ''v1.2.3'' [] sampleServer)
       \<lparr>httpGet := (\<lambda>url.
          if url = ''https://github.com/hulo-lang/hulo/releases/download/v1.2.3/hulo_Linux_x86_64.tar.gz''
          then BrokenOff
          else httpGet (sampleEnv ''v1.2.3'' [] sampleServer) url)\<rparr>"

section \<open>Properties of the manifest parser\<close>

subsection \<open>The parser's splitting gives the tokens of the line\<close>

lemma splitWs_nonwhite: "\<forall>c\<in>set t. \<not> isWhite c \<Longrightarrow> splitWs t = [t]"
  by (induction t) auto

lemma splitWs_token_white:
  "\<forall>c\<in>set t. \<not> isWhite c \<Longrightarrow> isWhite w \<Longrightarrow> splitWs (t @ w # r) = t # splitWs (dropWhile isWhite r)"
  by (induction t) auto

lemma tokens_dropWhile: "tokens (dropWhile isWhite s) = tokens s"
  by (subst tokens.simps, subst (2) tokens.simps) simp

lemma tokens_white: "\<forall>c\<in>set s. isWhite c \<Longrightarrow> tokens s = []"
proof -
  assume "\<forall>c\<in>set s. isWhite c"
  then have h: "dropWhile isWhite s = []" by (simp add: dropWhile_eq_Nil_conv)
  show ?thesis by (subst tokens.simps) (simp only: h list.case)
qed

lemma takeWhile_nw_append_white:
  "\<forall>c\<in>set ws. isWhite c \<Longrightarrow> takeWhile (\<lambda>x. \<not> isWhite x) (cs @ ws) = takeWhile (\<lambda>x. \<not> isWhite x) cs"
  by (induction cs) (auto simp: takeWhile_eq_Nil_iff, cases ws, auto)

lemma dropWhile_nw_append_white:
  "\<forall>c\<in>set ws. isWhite c \<Longrightarrow> dropWhile (\<lambda>x. \<not> isWhite x) (cs @ ws) = dropWhile (\<lambda>x. \<not> isWhite x) cs @ ws"
proof (induction cs)
  case Nil
  then show ?case by (cases ws) auto
next
  case (Cons a cs)
  then show ?case by simp
qed

lemma tokens_append_white: "\<forall>c\<in>set ws. isWhite c \<Longrightarrow> tokens (x @ ws) = tokens x"
proof (induction x rule: tokens.induct)
  case (1 s)
  show ?case
  proof (cases "dropWhile isWhite s")
    case Nil
    then have "\<forall>c\<in>set (s @ ws). isWhite c"
      using 1(2) by (auto simp: dropWhile_eq_Nil_conv)
    then have "tokens (s @ ws) = []" by (rule tokens_white)
    moreover have "tokens s = []" by (subst tokens.simps) (simp only: Nil list.case)
    ultimately show ?thesis by simp
  next
    case (Cons c cs)
    then have nw: "\<exists>x\<in>set s. \<not> isWhite x"
      by (metis dropWhile_eq_Nil_conv list.distinct(1))
    have d: "dropWhile isWhite (s @ ws) = c # cs @ ws"
    proof -
      obtain x where "x \<in> set s" "\<not> isWhite x" using nw by blast
      then have "dropWhile isWhite (s @ ws) = dropWhile isWhite s @ ws" by (rule dropWhile_append1)
      then show ?thesis by (simp only: Cons append_Cons)
    qed
    have ih: "tokens (dropWhile (\<lambda>x. \<not> isWhite x) cs @ ws) = tokens (dropWhile (\<lambda>x. \<not> isWhite x) cs)"
      using 1(1)[OF Cons 1(2)] .
    show ?thesis
      by (subst tokens.simps, subst (2) tokens.simps)
         (simp add: d Cons takeWhile_nw_append_white[OF 1(2)] dropWhile_nw_append_white[OF 1(2)] ih)
  qed
qed

lemma tokens_trim: "tokens (trim s) = tokens s"
proof -
  define u where "u = dropWhile isWhite s"
  have "u = rev (dropWhile isWhite (rev u)) @ rev (takeWhile isWhite (rev u))"
    by (metis rev_append rev_rev_ident takeWhile_dropWhile_id)
  moreover have "\<forall>c\<in>set (rev (takeWhile isWhite (rev u))). isWhite c"
    by (auto dest: set_takeWhileD)
  ultimately have "tokens u = tokens (rev (dropWhile isWhite (rev u)))"
    by (metis tokens_append_white)
  then show ?thesis by (simp add: trim_def u_def tokens_dropWhile)
qed

lemma trim_Nil_iff: "trim s = [] \<longleftrightarrow> (\<forall>c\<in>set s. isWhite c)"
proof
  assume "trim s = []"
  then have "\<forall>c\<in>set (dropWhile isWhite s). isWhite c" by (simp add: trim_def dropWhile_eq_Nil_conv)
  then have "dropWhile isWhite s = []" by (metis hd_dropWhile list.set_sel(1))
  then show "\<forall>c\<in>set s. isWhite c" by (simp add: dropWhile_eq_Nil_conv)
next
  assume "\<forall>c\<in>set s. isWhite c"
  then have h: "dropWhile isWhite s = []" by (simp add: dropWhile_eq_Nil_conv)
  show "trim s = []" unfolding trim_def h by simp
qed

lemma trim_hd: "trim s \<noteq> [] \<Longrightarrow> \<not> isWhite (hd (trim s))"
proof -
  assume a: "trim s \<noteq> []"
  define u where "u = dropWhile isWhite s"
  have t: "trim s = rev (dropWhile isWhite (rev u))" by (simp add: trim_def u_def)
  have "u \<noteq> []" using a t by auto
  then have hu: "\<not> isWhite (hd u)" unfolding u_def by (rule hd_dropWhile)
  have "u = trim s @ rev (takeWhile isWhite (rev u))"
    unfolding t by (metis rev_append rev_rev_ident takeWhile_dropWhile_id)
  then have "hd u = hd (trim s)" using a by (metis hd_append2)
  then show ?thesis using hu by simp
qed

lemma trim_last: "trim s \<noteq> [] \<Longrightarrow> \<not> isWhite (last (trim s))"
proof -
  assume a: "trim s \<noteq> []"
  then have "dropWhile isWhite (rev (dropWhile isWhite s)) \<noteq> []" by (simp add: trim_def)
  then have "\<not> isWhite (hd (dropWhile isWhite (rev (dropWhile isWhite s))))" by (rule hd_dropWhile)
  then show ?thesis using a by (simp add: trim_def last_rev)
qed

lemma splitWs_tight:
  "s \<noteq> [] \<Longrightarrow> \<not> isWhite (hd s) \<Longrightarrow> \<not> isWhite (last s) \<Longrightarrow> splitWs s = tokens s"
proof (induction "length s" arbitrary: s rule: less_induct)
  case less
  define t where "t = takeWhile (\<lambda>x. \<not> isWhite x) s"
  define r where "r = dropWhile (\<lambda>x. \<not> isWhite x) s"
  have s: "s = t @ r" by (simp add: t_def r_def)
  have tn: "\<forall>c\<in>set t. \<not> isWhite c" by (auto simp: t_def dest: set_takeWhileD)
  obtain c cs where ccs: "s = c # cs" using less.prems(1) by (cases s) auto
  have cnw: "\<not> isWhite c" using less.prems(2) ccs by simp
  have dw: "dropWhile isWhite s = c # cs" using ccs cnw by simp
  have tk: "tokens s = t # tokens r"
    by (subst tokens.simps) (simp add: dw, simp add: t_def r_def ccs cnw)
  show ?case
  proof (cases r)
    case Nil
    then show ?thesis using s tn tk tokens_white[of "[]"] by (simp add: splitWs_nonwhite)
  next
    case (Cons w r')
    have w: "isWhite w" using Cons hd_dropWhile[of "\<lambda>x. \<not> isWhite x" s] by (simp add: r_def)
    define s' where "s' = dropWhile isWhite r'"
    have sp: "splitWs s = t # splitWs s'"
      using splitWs_token_white[OF tn w, of r'] s Cons by (simp add: s'_def)
    have rs': "dropWhile isWhite r = s'" using Cons w by (simp add: s'_def)
    have lastr: "last s = last r" using s Cons by simp
    have "\<not> (\<forall>x\<in>set r. isWhite x)" using less.prems(3) lastr Cons by (metis last_in_set list.distinct(1))
    then have ne: "s' \<noteq> []" using rs' by (metis dropWhile_eq_Nil_conv)
    have hd': "\<not> isWhite (hd s')" using ne unfolding s'_def by (rule hd_dropWhile)
    have "r = takeWhile isWhite r @ s'" using rs' by (metis takeWhile_dropWhile_id)
    then have "last r = last s'" using ne by (metis last_appendR)
    then have last': "\<not> isWhite (last s')" using less.prems(3) lastr by simp
    have "length s' \<le> length r'" unfolding s'_def by (rule length_dropWhile_le)
    then have len: "length s' < length s" using s Cons by simp
    have "splitWs s' = tokens s'" using less.hyps[OF len ne hd' last'] .
    then show ?thesis using sp tk rs' tokens_dropWhile[of r] by simp
  qed
qed

lemma splitWs_trim: "trim s \<noteq> [] \<Longrightarrow> splitWs (trim s) = tokens s"
  using splitWs_tight[OF _ trim_hd trim_last, of s] by (simp add: tokens_trim)

lemma parseLine_tokens:
  "parseLine entries line = entries @ (if wellFormed line then [entryOf line] else [])"
proof (cases "trim line = []")
  case True
  then have "tokens line = []" by (simp add: trim_Nil_iff tokens_white)
  then show ?thesis using True by (simp add: parseLine_def wellFormed_def)
next
  case False
  then show ?thesis
    by (simp add: parseLine_def wellFormed_def entryOf_def splitWs_trim Let_def)
qed

lemma foldl_parseLine:
  "foldl parseLine acc ls = acc @ map entryOf (filter wellFormed ls)"
  by (induction ls arbitrary: acc) (simp_all add: parseLine_tokens)

lemma parseChecksums_splitOn:
  "parseChecksums content = map entryOf (filter wellFormed (splitOn LF content))"
  by (simp add: parseChecksums_def foldl_parseLine)

lemma splitOn_not_Nil: "splitOn d s \<noteq> []"
  by (induction s) (auto split: list.splits)

lemma splitOn_no_sep: "d \<notin> set l \<Longrightarrow> splitOn d l = [l]"
  by (induction l) auto

lemma splitOn_append:
  "d \<notin> set l \<Longrightarrow> splitOn d (l @ d # r) = l # splitOn d r"
  by (induction l) auto

lemma joinWith_Cons:
  "joinWith sep (x # xs) = (if xs = [] then x else x @ sep @ joinWith sep xs)"
  by (cases xs) simp_all

lemma splitOn_joinWith:
  "ls \<noteq> [] \<Longrightarrow> \<forall>l\<in>set ls. d \<notin> set l \<Longrightarrow> splitOn d (joinWith [d] ls) = ls"
proof (induction ls)
  case Nil
  then show ?case by simp
next
  case (Cons x xs)
  then show ?case by (cases "xs = []") (simp_all add: joinWith_Cons splitOn_no_sep splitOn_append)
qed

lemma tokens_nonempty: "t \<in> set (tokens s) \<Longrightarrow> isToken t"
proof (induction s arbitrary: t rule: tokens.induct)
  case (1 s)
  show ?case
  proof (cases "dropWhile isWhite s")
    case Nil
    then have "tokens s = []" by (subst tokens.simps) (simp only: list.case)
    then show ?thesis using 1(2) by simp
  next
    case (Cons c cs)
    have cn: "\<not> isWhite c" using hd_dropWhile[of isWhite s] Cons by simp
    have tk: "tokens s = (c # takeWhile (\<lambda>x. \<not> isWhite x) cs) # tokens (dropWhile (\<lambda>x. \<not> isWhite x) cs)"
      by (subst tokens.simps) (simp only: Cons list.case)
    show ?thesis
    proof (cases "t = c # takeWhile (\<lambda>x. \<not> isWhite x) cs")
      case True
      then show ?thesis using cn by (auto simp: isToken_def list_all_iff dest: set_takeWhileD)
    next
      case False
      then have "t \<in> set (tokens (dropWhile (\<lambda>x. \<not> isWhite x) cs))" using 1(2) tk by simp
      then show ?thesis using 1(1)[OF Cons] by simp
    qed
  qed
qed

lemma tokens_token_white:
  assumes "isToken h" "isWhite w"
  shows "tokens (h @ w # r) = h # tokens r"
proof -
  obtain c cs where h: "h = c # cs" using assms(1) by (cases h) (auto simp: isToken_def)
  have nw: "\<not> isWhite c" "\<forall>x\<in>set cs. \<not> isWhite x"
    using assms(1) h by (auto simp: isToken_def list_all_iff)
  have d: "dropWhile isWhite (h @ w # r) = c # (cs @ w # r)" using h nw by simp
  have t: "takeWhile (\<lambda>x. \<not> isWhite x) (cs @ w # r) = cs"
    using nw(2) assms(2) by (simp add: takeWhile_append2)
  have e: "dropWhile (\<lambda>x. \<not> isWhite x) (cs @ w # r) = w # r"
    using nw(2) assms(2) by (simp add: dropWhile_append2)
  have "tokens (h @ w # r) = (c # cs) # tokens (w # r)"
    by (subst tokens.simps) (simp only: d list.case t e)
  moreover have "tokens (w # r) = tokens r"
    using tokens_dropWhile[of "w # r"] tokens_dropWhile[of r] assms(2) by simp
  ultimately show ?thesis using h by simp
qed

lemma tokens_single: "isToken h \<Longrightarrow> tokens h = [h]"
proof -
  assume a: "isToken h"
  have "tokens (h @ [CHR 0x20]) = h # tokens []"
    using tokens_token_white[OF a, of "CHR 0x20" "[]"] by (simp add: isWhite_def)
  moreover have "tokens (h @ [CHR 0x20]) = tokens h"
    by (rule tokens_append_white) (simp add: isWhite_def)
  moreover have "tokens [] = []" by (simp add: tokens.simps)
  ultimately show ?thesis by simp
qed

lemma tokens_joinWith_space:
  "list_all isToken ns \<Longrightarrow> tokens (joinWith '' '' ns) = ns"
proof (induction ns)
  case Nil
  then show ?case by (simp add: tokens.simps)
next
  case (Cons x xs)
  have w: "isWhite (CHR 0x20)" by (simp add: isWhite_def)
  show ?case
  proof (cases "xs = []")
    case True
    then show ?thesis using Cons.prems by (simp add: tokens_single)
  next
    case False
    then show ?thesis
      using Cons tokens_token_white[OF _ w, of x "joinWith '' '' xs"] by (simp add: joinWith_Cons)
  qed
qed

lemma entryOf_roundtrip:
  assumes "isToken h" "ns \<noteq> []" "list_all isToken ns"
    "list_all isWhite pre" "sep \<noteq> []" "list_all isWhite sep" "list_all isWhite post"
  shows "wellFormed (pre @ h @ sep @ joinWith '' '' ns @ post)
       \<and> entryOf (pre @ h @ sep @ joinWith '' '' ns @ post) = \<lparr>hash = h, filename = joinWith '' '' ns\<rparr>"
proof -
  obtain w ws where sep: "sep = w # ws" using assms(5) by (cases sep) auto
  have w: "isWhite w" and ws: "\<forall>c\<in>set ws. isWhite c" using assms(6) sep by (auto simp: list_all_iff)
  let ?body = "joinWith '' '' ns"
  have 1: "tokens (pre @ h @ sep @ ?body @ post) = tokens (h @ sep @ ?body @ post)"
  proof -
    have "dropWhile isWhite (pre @ h @ sep @ ?body @ post) = dropWhile isWhite (h @ sep @ ?body @ post)"
      using assms(4) by (induction pre) (auto)
    then show ?thesis by (metis tokens_dropWhile)
  qed
  have 2: "tokens (h @ sep @ ?body @ post) = h # tokens (ws @ ?body @ post)"
    using tokens_token_white[OF assms(1) w] sep by simp
  have 3: "tokens (ws @ ?body @ post) = tokens (?body @ post)"
  proof -
    have "dropWhile isWhite (ws @ ?body @ post) = dropWhile isWhite (?body @ post)"
      using ws by (induction ws) auto
    then show ?thesis by (metis tokens_dropWhile)
  qed
  have 4: "tokens (?body @ post) = ns"
    using tokens_append_white[of post ?body] assms(7) tokens_joinWith_space[OF assms(3)]
    by (simp add: list_all_iff)
  have tk: "tokens (pre @ h @ sep @ ?body @ post) = h # ns" using 1 2 3 4 by simp
  have "length ns \<ge> 1" using assms(2) by (cases ns) auto
  then show ?thesis using tk by (simp add: wellFormed_def entryOf_def)
qed

subsection \<open>Lines built from tokens\<close>

lemma list_all_white_dropWhile: "list_all isWhite pre \<Longrightarrow> dropWhile isWhite (pre @ m) = dropWhile isWhite m"
  by (induction pre) auto

lemma trim_strip:
  assumes "list_all isWhite pre" "list_all isWhite post" "m \<noteq> []" "\<not> isWhite (hd m)" "\<not> isWhite (last m)"
  shows "trim (pre @ m @ post) = m"
proof -
  have 1: "dropWhile isWhite (pre @ m @ post) = m @ post"
    using assms(1,3,4) by (cases m) (simp_all add: list_all_white_dropWhile)
  have 2: "dropWhile isWhite (rev post @ rev m) = dropWhile isWhite (rev m)"
    using assms(2) by (intro list_all_white_dropWhile) (simp add: list_all_iff)
  have 3: "dropWhile isWhite (rev m) = rev m"
    using assms(3,5) by (cases "rev m") (auto simp: hd_rev)
  show ?thesis by (simp add: trim_def 1 2 3)
qed

lemma joinWith_tokens_ends:
  "ns \<noteq> [] \<Longrightarrow> list_all isToken ns \<Longrightarrow>
     joinWith sep ns \<noteq> [] \<and> hd (joinWith sep ns) = hd (hd ns) \<and> last (joinWith sep ns) = last (last ns)"
proof (induction ns)
  case Nil
  then show ?case by simp
next
  case (Cons x xs)
  have x: "x \<noteq> []" using Cons.prems(2) by (simp add: isToken_def)
  show ?case
  proof (cases "xs = []")
    case True
    then show ?thesis using x by simp
  next
    case False
    then show ?thesis using Cons x by (simp add: joinWith_Cons)
  qed
qed

lemma isToken_ends: "isToken t \<Longrightarrow> \<not> isWhite (hd t) \<and> \<not> isWhite (last t)"
  by (cases t) (auto simp: isToken_def list_all_iff)

lemma afterHash_roundtrip:
  assumes "isToken h" "ns \<noteq> []" "list_all isToken ns"
    "list_all isWhite pre" "sep \<noteq> []" "list_all isWhite sep" "list_all isWhite post"
  shows "afterHash (pre @ h @ sep @ joinWith '' '' ns @ post) = joinWith '' '' ns"
proof -
  let ?body = "joinWith '' '' ns"
  let ?m = "h @ sep @ ?body"
  have b: "?body \<noteq> []" "hd ?body = hd (hd ns)" "last ?body = last (last ns)"
    using joinWith_tokens_ends[OF assms(2,3)] by auto
  have hdns: "isToken (hd ns)" "isToken (last ns)"
    using assms(2,3) by (auto simp: list_all_iff)
  have hne: "h \<noteq> []" using assms(1) by (simp add: isToken_def)
  have m: "?m \<noteq> []" "\<not> isWhite (hd ?m)" "\<not> isWhite (last ?m)"
    using hne b isToken_ends[OF assms(1)] isToken_ends[OF hdns(2)] by auto
  have t: "trim (pre @ ?m @ post) = ?m"
    by (rule trim_strip[OF assms(4) assms(7) m])
  obtain w ws where sep: "sep = w # ws" using assms(5) by (cases sep) auto
  have w: "isWhite w" using assms(6) sep by simp
  have hn: "\<forall>x\<in>set h. \<not> isWhite x" using assms(1) by (simp add: isToken_def list_all_iff)
  have d1: "dropWhile (\<lambda>x. \<not> isWhite x) ?m = sep @ ?body"
    using hn w sep by (simp add: dropWhile_append2)
  have d2: "dropWhile isWhite (sep @ ?body) = dropWhile isWhite ?body"
    by (rule list_all_white_dropWhile[OF assms(6)])
  have d3: "dropWhile isWhite ?body = ?body"
    using b isToken_ends[OF hdns(1)] by (cases ?body) auto
  have "afterHash (pre @ ?m @ post) = ?body"
    unfolding afterHash_def t d1 d2 d3 ..
  then show ?thesis by simp
qed

lemma parseChecksums_joined:
  assumes "\<forall>l\<in>set ls. LF \<notin> set l"
  shows "parseChecksums (joinWith [LF] ls) = map entryOf (filter wellFormed ls)"
proof (cases "ls = []")
  case True
  have "tokens [] = []" by (simp add: tokens.simps)
  then show ?thesis using True by (simp add: parseChecksums_splitOn wellFormed_def)
next
  case False
  then show ?thesis using assms by (simp add: parseChecksums_splitOn splitOn_joinWith)
qed

subsection \<open>Claims about the parser\<close>

text \<open>
  Claim C2, as amended. For a manifest text made of the lines \<open>ls\<close> (none of which holds a
  line feed), the parser yields one entry for each well-formed line, in the order of the
  lines, and none for a blank line or a line with a single token: so \<open>n\<close> well-formed lines
  give exactly \<open>n\<close> entries. The entry of a well-formed line has the first token as hash
  and the remaining tokens joined by single spaces as filename. A filename whose words are
  separated by single spaces is the portion of the line after the hash, and round-trips
  intact.
\<close>

theorem parseChecksums_lines:
  assumes "\<forall>l\<in>set ls. LF \<notin> set l"
  shows "parseChecksums (joinWith [LF] ls) = map entryOf (filter wellFormed ls)
       \<and> ((\<forall>l\<in>set ls. wellFormed l) \<longrightarrow> length (parseChecksums (joinWith [LF] ls)) = length ls)
       \<and> (\<forall>pre h sep ns post.
             isToken h \<and> ns \<noteq> [] \<and> list_all isToken ns \<and> list_all isWhite pre
             \<and> sep \<noteq> [] \<and> list_all isWhite sep \<and> list_all isWhite post \<longrightarrow>
             wellFormed (pre @ h @ sep @ joinWith '' '' ns @ post)
             \<and> entryOf (pre @ h @ sep @ joinWith '' '' ns @ post) = \<lparr>hash = h, filename = joinWith '' '' ns\<rparr>
             \<and> afterHash (pre @ h @ sep @ joinWith '' '' ns @ post) = joinWith '' '' ns)"
proof (intro conjI impI allI)
  show eq: "parseChecksums (joinWith [LF] ls) = map entryOf (filter wellFormed ls)"
    by (rule parseChecksums_joined[OF assms])
  show "length (parseChecksums (joinWith [LF] ls)) = length ls" if "\<forall>l\<in>set ls. wellFormed l"
    using that by (simp add: eq)
next
  fix pre h sep ns post
  assume a: "isToken h \<and> ns \<noteq> [] \<and> list_all isToken ns \<and> list_all isWhite pre
             \<and> sep \<noteq> [] \<and> list_all isWhite sep \<and> list_all isWhite post"
  then have r: "wellFormed (pre @ h @ sep @ joinWith '' '' ns @ post)
       \<and> entryOf (pre @ h @ sep @ joinWith '' '' ns @ post) = \<lparr>hash = h, filename = joinWith '' '' ns\<rparr>"
    by (intro entryOf_roundtrip) simp_all
  from r show "wellFormed (pre @ h @ sep @ joinWith '' '' ns @ post)" by simp
  from r show "entryOf (pre @ h @ sep @ joinWith '' '' ns @ post) = \<lparr>hash = h, filename = joinWith '' '' ns\<rparr>" by simp
  from a show "afterHash (pre @ h @ sep @ joinWith '' '' ns @ post) = joinWith '' '' ns"
    by (intro afterHash_roundtrip) simp_all
qed

text \<open>
  The theorem at a manifest of four lines, two of them well formed, at a manifest of two
  well-formed lines, and at a line whose filename has one internal space.
\<close>

theorem parseChecksums_lines_witness:
  "parseChecksums (joinWith [LF] [''abc  my file.txt'', [], ''lonely'', '' 9f  hulo_Linux_x86_64.tar.gz''])
     = [\<lparr>hash = ''abc'', filename = ''my file.txt''\<rparr>, \<lparr>hash = ''9f'', filename = ''hulo_Linux_x86_64.tar.gz''\<rparr>]
   \<and> length (parseChecksums (joinWith [LF] [''abc  my file.txt'', '' 9f  hulo_Linux_x86_64.tar.gz''])) = 2
   \<and> afterHash (''abc  my file.txt'') = ''my file.txt''"
proof -
  let ?ls = "[''abc  my file.txt'', [], ''lonely'', '' 9f  hulo_Linux_x86_64.tar.gz'']"
  let ?ws = "[''abc  my file.txt'', '' 9f  hulo_Linux_x86_64.tar.gz'']"
  have h1: "\<forall>l\<in>set ?ls. LF \<notin> set l" by (simp add: LF_def)
  have h2: "\<forall>l\<in>set ?ws. LF \<notin> set l" by (simp add: LF_def)
  have wf: "\<forall>l\<in>set ?ws. wellFormed l" by code_simp
  have ev: "map entryOf (filter wellFormed ?ls)
     = [\<lparr>hash = ''abc'', filename = ''my file.txt''\<rparr>, \<lparr>hash = ''9f'', filename = ''hulo_Linux_x86_64.tar.gz''\<rparr>]"
    by code_simp
  have tk: "isToken ''abc'' \<and> [''my'', ''file.txt''] \<noteq> [] \<and> list_all isToken [''my'', ''file.txt'']
      \<and> list_all isWhite [] \<and> ''  '' \<noteq> [] \<and> list_all isWhite ''  '' \<and> list_all isWhite []"
    by code_simp
  have a: "parseChecksums (joinWith [LF] ?ls) = map entryOf (filter wellFormed ?ls)"
    using parseChecksums_lines[OF h1] by (rule conjunct1)
  have b: "length (parseChecksums (joinWith [LF] ?ws)) = length ?ws"
    using parseChecksums_lines[OF h2] wf by blast
  have c: "afterHash ([] @ ''abc'' @ ''  '' @ joinWith '' '' [''my'', ''file.txt''] @ []) = joinWith '' '' [''my'', ''file.txt'']"
    using parseChecksums_lines[OF h1] tk by blast
  have a': "parseChecksums (joinWith [LF] ?ls)
     = [\<lparr>hash = ''abc'', filename = ''my file.txt''\<rparr>, \<lparr>hash = ''9f'', filename = ''hulo_Linux_x86_64.tar.gz''\<rparr>]"
    using a ev by (rule trans)
  have b': "length (parseChecksums (joinWith [LF] ?ws)) = 2" using b by simp
  have c': "afterHash ''abc  my file.txt'' = ''my file.txt''" using c by simp
  show ?thesis by (rule conjI[OF a' conjI[OF b' c']])
qed

text \<open>
  Claim C2 as stated fails where the filename has a run of two spaces: the parser joins the
  tokens after the hash by single spaces, so the entry's filename is not the portion of the
  line after the hash.
\<close>

theorem parseChecksums_filename_counterexample:
  "wellFormed ''abc  my  file.txt''
   \<and> filename (hd (parseChecksums ''abc  my  file.txt'')) = ''my file.txt''
   \<and> afterHash ''abc  my  file.txt'' = ''my  file.txt''
   \<and> filename (hd (parseChecksums ''abc  my  file.txt'')) \<noteq> afterHash ''abc  my  file.txt''"
  by code_simp

text \<open>
  Claim C3. Every entry the parser produces has a non-empty hash and a non-empty filename;
  a line with fewer than two tokens leaves the list of entries as it is. The parser is a
  total function: no input makes it fail.
\<close>

theorem parseChecksums_entries_nonempty:
  "(\<forall>e\<in>set (parseChecksums content). hash e \<noteq> [] \<and> filename e \<noteq> [])
   \<and> (\<forall>entries line. length (tokens line) < 2 \<longrightarrow> parseLine entries line = entries)"
proof (intro conjI ballI allI impI)
  fix e
  assume "e \<in> set (parseChecksums content)"
  then obtain l where l: "wellFormed l" "e = entryOf l"
    by (auto simp: parseChecksums_splitOn)
  then obtain t1 t2 ts where tk: "tokens l = t1 # t2 # ts"
    by (cases "tokens l"; cases "tl (tokens l)") (auto simp: wellFormed_def)
  have "isToken t1" "isToken t2" using tokens_nonempty[of _ l] tk by auto
  then have ne: "t1 \<noteq> []" "t2 \<noteq> []" by (auto simp: isToken_def)
  show "hash e \<noteq> []" using l tk ne by (simp add: entryOf_def)
  show "filename e \<noteq> []" using l tk ne by (simp add: entryOf_def joinWith_Cons)
next
  fix entries line
  assume "length (tokens line) < 2"
  then show "parseLine entries line = entries" by (simp add: parseLine_tokens wellFormed_def)
qed

text \<open>The theorem at the manifest \<^verbatim>\<open>abc  f.txt\<close> and at the line \<^verbatim>\<open>lonely\<close>.\<close>

theorem parseChecksums_entries_nonempty_witness:
  "hash \<lparr>hash = ''abc'', filename = ''f.txt''\<rparr> \<noteq> [] \<and> filename \<lparr>hash = ''abc'', filename = ''f.txt''\<rparr> \<noteq> []
   \<and> parseLine [] ''lonely'' = []"
proof -
  have m: "\<lparr>hash = ''abc'', filename = ''f.txt''\<rparr> \<in> set (parseChecksums ''abc  f.txt'')" by code_simp
  have t: "length (tokens ''lonely'') < 2" by code_simp
  note th = parseChecksums_entries_nonempty[of "''abc  f.txt''"]
  from bspec[OF conjunct1[OF th] m] spec[OF spec[OF conjunct2[OF th]], THEN mp, OF t]
  show ?thesis by (intro conjI) (erule conjunct1, erule conjunct2, assumption)
qed

section \<open>Properties of the generated texts\<close>

subsection \<open>Lines of a text\<close>

lemma splitOn_append_sep: "splitOn d (a @ d # b) = splitOn d a @ splitOn d b"
proof (induction a)
  case Nil
  then show ?case by simp
next
  case (Cons c a)
  then show ?case using splitOn_not_Nil[of d a] by (cases "splitOn d a") auto
qed

lemma line_in_text: "d \<notin> set l \<Longrightarrow> l \<in> set (splitOn d (X @ d # l @ d # Y))"
  by (simp add: splitOn_append_sep splitOn_no_sep)

lemma escape_osName: "escapeExpression (osName x) = osName x"
  by (cases x) (simp_all add: escapeExpression_def escapeChar_def)

lemma escape_cpuName: "escapeExpression (cpuName x) = cpuName x"
  by (cases x) (simp_all add: escapeExpression_def escapeChar_def)

lemma LF_osName: "LF \<notin> set (osName x)"
  by (cases x) (simp_all add: LF_def)

lemma LF_cpuName: "LF \<notin> set (cpuName x)"
  by (cases x) (simp_all add: LF_def)

lemma packageJson_tail:
  \<open>\<exists>X Y. packageJson name v (Own d) b =
     X @ LF # (''    "os": ["'' @ osName (os d) @ ''"],'') @ LF # (''    "cpu": ["'' @ cpuName (arch d) @ ''"],'') @ LF # Y\<close>
proof -
  let ?data = "packageJsonData name v (Own d) b"
  have \<open>packageJson name v (Own d) b =
      (render (take 10 packageJsonTemplate) ?data
        @ ''],\<newline>    "author": "The Hulo Authors",\<newline>    "license": "MIT",\<newline>    "homepage": "https://hulo-lang.github.io/docs/",\<newline>    "repository": {\<newline>        "type": "git",\<newline>        "url": "https://github.com/hulo-lang/hulo.git"\<newline>    },\<newline>    "publishConfig": {\<newline>        "access": "public"\<newline>    },'')
      @ LF # (''    "os": ["'' @ osName (os d) @ ''"],'') @ LF # (''    "cpu": ["'' @ cpuName (arch d) @ ''"],'')
      @ LF # ''    "engines": {\<newline>        "node": ">=14.0.0"\<newline>    }\<newline>}''\<close>
    by (simp add: packageJson_def render_def packageJsonTemplate_def packageJsonData_def LF_def
        escape_osName escape_cpuName)
  then show ?thesis by blast
qed

lemma packageJson_head:
  \<open>\<exists>Y. packageJson name v pd b =
     ''{'' @ LF # (''    "name": "@hulo/'' @ escapeExpression name @ ''",'')
           @ LF # (''    "version": "'' @ escapeExpression v @ ''",'') @ LF # Y\<close>
proof -
  have \<open>packageJson name v pd b =
     ''{'' @ LF # (''    "name": "@hulo/'' @ escapeExpression name @ ''",'')
           @ LF # (''    "version": "'' @ escapeExpression v @ ''",'')
           @ LF # (''    "description": "'' @ render (drop 5 packageJsonTemplate) (packageJsonData name v pd b))\<close>
    by (simp add: packageJson_def render_def packageJsonTemplate_def packageJsonData_def LF_def)
  then show ?thesis by blast
qed

lemma escapeChar_no_LF: "LF \<notin> set (escapeChar c) \<longleftrightarrow> c \<noteq> LF"
  by (auto simp: escapeChar_def LF_def)

lemma escapeExpression_no_LF: "LF \<notin> set s \<Longrightarrow> LF \<notin> set (escapeExpression s)"
  by (induction s) (auto simp: escapeExpression_def escapeChar_no_LF)

lemma packageJson_declares_name_version:
  assumes "LF \<notin> set name" "LF \<notin> set v"
  shows "declares (packageJson name v pd b) ''name'' (''@hulo/'' @ escapeExpression name)
       \<and> declares (packageJson name v pd b) ''version'' (escapeExpression v)"
proof -
  obtain Y where Y: \<open>packageJson name v pd b =
     ''{'' @ LF # (''    "name": "@hulo/'' @ escapeExpression name @ ''",'')
           @ LF # (''    "version": "'' @ escapeExpression v @ ''",'') @ LF # Y\<close>
    using packageJson_head by blast
  have n: \<open>LF \<notin> set (''    "name": "@hulo/'' @ escapeExpression name @ ''",'')\<close>
    using escapeExpression_no_LF[OF assms(1)] by (simp add: LF_def)
  have v: \<open>LF \<notin> set (''    "version": "'' @ escapeExpression v @ ''",'')\<close>
    using escapeExpression_no_LF[OF assms(2)] by (simp add: LF_def)
  have 1: \<open>(''    "name": "@hulo/'' @ escapeExpression name @ ''",'') \<in> set (splitOn LF (packageJson name v pd b))\<close>
    unfolding Y by (rule line_in_text[OF n])
  have \<open>(''    "version": "'' @ escapeExpression v @ ''",'')
      \<in> set (splitOn LF ((''{'' @ LF # (''    "name": "@hulo/'' @ escapeExpression name @ ''",''))
           @ LF # (''    "version": "'' @ escapeExpression v @ ''",'') @ LF # Y))\<close>
    by (rule line_in_text[OF v])
  then have 2: \<open>(''    "version": "'' @ escapeExpression v @ ''",'') \<in> set (splitOn LF (packageJson name v pd b))\<close>
    unfolding Y by simp
  show ?thesis using 1 2 by (simp add: declares_def)
qed

text \<open>
  The descriptor rendered for a key of the platform table has the \<^verbatim>\<open>os\<close> and \<^verbatim>\<open>cpu\<close> lines
  of the table's entry.
\<close>

lemma packageJson_os_cpu:
  assumes "map_of platformInfo key = Some d"
  shows "platformInfoGet key = Some (Own d)
       \<and> declaresOne (packageJson key version (Own d) (binaryNameOf key)) ''os'' (osName (os d))
       \<and> declaresOne (packageJson key version (Own d) (binaryNameOf key)) ''cpu'' (cpuName (arch d))"
proof -
  let ?b = "binaryNameOf key"
  obtain X Y where t: \<open>packageJson key version (Own d) ?b =
     X @ LF # (''    "os": ["'' @ osName (os d) @ ''"],'') @ LF # (''    "cpu": ["'' @ cpuName (arch d) @ ''"],'') @ LF # Y\<close>
    using packageJson_tail by blast
  have o: \<open>LF \<notin> set (''    "os": ["'' @ osName (os d) @ ''"],'')\<close>
    using LF_osName by (simp add: LF_def)
  have c: \<open>LF \<notin> set (''    "cpu": ["'' @ cpuName (arch d) @ ''"],'')\<close>
    using LF_cpuName by (simp add: LF_def)
  have 1: \<open>(''    "os": ["'' @ osName (os d) @ ''"],'') \<in> set (splitOn LF (packageJson key version (Own d) ?b))\<close>
    unfolding t by (rule line_in_text[OF o])
  have \<open>(''    "cpu": ["'' @ cpuName (arch d) @ ''"],'')
      \<in> set (splitOn LF ((X @ LF # (''    "os": ["'' @ osName (os d) @ ''"],''))
            @ LF # (''    "cpu": ["'' @ cpuName (arch d) @ ''"],'') @ LF # Y))\<close>
    by (rule line_in_text[OF c])
  then have 2: \<open>(''    "cpu": ["'' @ cpuName (arch d) @ ''"],'') \<in> set (splitOn LF (packageJson key version (Own d) ?b))\<close>
    unfolding t by simp
  have 3: "platformInfoGet key = Some (Own d)" using assms by (simp add: platformInfoGet_def)
  show ?thesis using 1 2 3 by (simp add: declaresOne_def)
qed

section \<open>Properties of paths and of the file tree\<close>

subsection \<open>Joined paths\<close>

lemma splitOn_elems_no_sep: "x \<in> set (splitOn d s) \<Longrightarrow> d \<notin> set x"
proof (induction s arbitrary: x)
  case Nil
  then show ?case by simp
next
  case (Cons c s)
  show ?case
  proof (cases "c = d")
    case True
    then show ?thesis using Cons by auto
  next
    case False
    obtain t ts where sp: "splitOn d s = t # ts"
      using splitOn_not_Nil[of d s] by (cases "splitOn d s") auto
    have "d \<notin> set t" using Cons.IH[of t] sp by simp
    moreover have "\<forall>y\<in>set ts. d \<notin> set y" using Cons.IH sp by simp
    ultimately show ?thesis using Cons.prems False sp by auto
  qed
qed

lemma normSegs_elems:
  "\<forall>x\<in>set acc. x \<noteq> [] \<and> CHR ''/'' \<notin> set x \<Longrightarrow> \<forall>x\<in>set xs. CHR ''/'' \<notin> set x \<Longrightarrow>
     \<forall>x\<in>set (normSegs b acc xs). x \<noteq> [] \<and> CHR ''/'' \<notin> set x"
proof (induction xs arbitrary: acc)
  case Nil
  then show ?case by simp
next
  case (Cons seg segs)
  have bl: "\<forall>x\<in>set (butlast acc). x \<noteq> [] \<and> CHR ''/'' \<notin> set x"
    using Cons.prems(1) by (auto dest: in_set_butlastD)
  have dd: "\<forall>x\<in>set (acc @ [''..'']). x \<noteq> [] \<and> CHR ''/'' \<notin> set x"
    using Cons.prems(1) by auto
  have sg: "seg \<noteq> [] \<Longrightarrow> \<forall>x\<in>set (acc @ [seg]). x \<noteq> [] \<and> CHR ''/'' \<notin> set x"
    using Cons.prems by auto
  have rest: "\<forall>x\<in>set segs. CHR ''/'' \<notin> set x" using Cons.prems(2) by simp
  show ?case
    using Cons.IH[OF Cons.prems(1) rest] Cons.IH[OF bl rest] Cons.IH[OF dd rest] Cons.IH[OF sg rest]
    by (simp del: append.simps)
qed

lemma normSegs_snoc_plain:
  "plainName n \<Longrightarrow> normSegs b acc (xs @ [n]) = normSegs b acc xs @ [n]"
  by (induction xs arbitrary: acc) (auto simp: plainName_def)

lemma segments_joinWith:
  "segs \<noteq> [] \<Longrightarrow> \<forall>x\<in>set segs. x \<noteq> [] \<and> CHR ''/'' \<notin> set x \<Longrightarrow> segments (joinWith ''/'' segs) = segs"
proof -
  assume a: "segs \<noteq> []" "\<forall>x\<in>set segs. x \<noteq> [] \<and> CHR ''/'' \<notin> set x"
  then have "splitOn (CHR ''/'') (joinWith [CHR ''/''] segs) = segs"
    by (intro splitOn_joinWith) auto
  then show ?thesis using a by (simp add: segments_def filter_id_conv)
qed

lemma segments_slash: "segments (CHR ''/'' # s) = segments s"
  by (simp add: segments_def)

lemma join_nonempty: "join xs \<noteq> []"
  by (auto simp: join_def normalizePath_def Let_def)

lemma join2_plain:
  assumes "P \<noteq> []" "plainName n"
  shows "\<exists>S. (\<forall>x\<in>set S. x \<noteq> [] \<and> CHR ''/'' \<notin> set x)
            \<and> join [P, n] = (if hd P = CHR ''/'' then ''/'' else []) @ joinWith ''/'' (S @ [n])
            \<and> S = normSegs (hd P \<noteq> CHR ''/'') [] (splitOn (CHR ''/'') P)"
proof -
  let ?S = "normSegs (hd P \<noteq> CHR ''/'') [] (splitOn (CHR ''/'') P)"
  let ?q = "P @ ''/'' @ n"
  have n: "n \<noteq> []" "CHR ''/'' \<notin> set n" using assms(2) by (auto simp: plainName_def)
  have j: "join [P, n] = normalizePath ?q" using assms(1) n by (simp add: join_def)
  have hd: "hd ?q = hd P" using assms(1) by simp
  have lastn: "last ?q = last n" using n by simp
  then have tr: "last ?q \<noteq> CHR ''/''" using n by (metis last_in_set)
  have sp: "splitOn (CHR ''/'') ?q = splitOn (CHR ''/'') P @ [n]"
    using splitOn_append_sep[of "CHR ''/''" P n] n by (simp add: splitOn_no_sep)
  have ns: "normSegs (hd P \<noteq> CHR ''/'') [] (splitOn (CHR ''/'') ?q) = ?S @ [n]"
    unfolding sp by (rule normSegs_snoc_plain[OF assms(2)])
  have el: "\<forall>x\<in>set ?S. x \<noteq> [] \<and> CHR ''/'' \<notin> set x"
    by (rule normSegs_elems) (auto dest: splitOn_elems_no_sep)
  have ne: "joinWith ''/'' (?S @ [n]) \<noteq> []"
    using n by (cases ?S) (auto simp: joinWith_Cons)
  have "normalizePath ?q = (if hd P = CHR ''/'' then ''/'' else []) @ joinWith ''/'' (?S @ [n])"
    unfolding normalizePath_def Let_def hd using ns ne tr by simp
  then show ?thesis using j el by auto
qed

lemma segments_join2:
  assumes "P \<noteq> []" "plainName n"
  shows "segments (join [P, n]) = normSegs (hd P \<noteq> CHR ''/'') [] (splitOn (CHR ''/'') P) @ [n]"
proof -
  obtain S where S: "\<forall>x\<in>set S. x \<noteq> [] \<and> CHR ''/'' \<notin> set x"
    "join [P, n] = (if hd P = CHR ''/'' then ''/'' else []) @ joinWith ''/'' (S @ [n])"
    "S = normSegs (hd P \<noteq> CHR ''/'') [] (splitOn (CHR ''/'') P)"
    using join2_plain[OF assms] by blast
  have "\<forall>x\<in>set (S @ [n]). x \<noteq> [] \<and> CHR ''/'' \<notin> set x"
    using S(1) assms(2) by (auto simp: plainName_def)
  then have sj: "segments (joinWith ''/'' (S @ [n])) = S @ [n]"
    by (intro segments_joinWith) auto
  have "segments (join [P, n]) = S @ [n]"
  proof (cases "hd P = CHR ''/''")
    case True
    then show ?thesis using S(2) sj by (simp add: segments_slash)
  next
    case False
    then show ?thesis using S(2) sj by simp
  qed
  then show ?thesis unfolding S(3) .
qed

subsection \<open>Stored files\<close>

lemma nodeAt_putNode_same:
  "segs \<noteq> [] \<Longrightarrow> nodeAt t (butlast segs) = Some (Dir es) \<Longrightarrow> nodeAt (putNode segs new t) segs = Some new"
proof (induction segs arbitrary: t)
  case Nil
  then show ?case by simp
next
  case (Cons c cs)
  show ?case
  proof (cases "cs = []")
    case True
    then show ?thesis using Cons.prems
      by (auto simp: update_conv' map_add_def split: option.splits)
  next
    case False
    then show ?thesis using Cons
      by (auto simp: update_conv' split: node.splits option.splits)
  qed
qed

lemma nodeAt_putNode_sibling:
  "a \<noteq> b \<Longrightarrow> nodeAt (putNode (S @ [a]) new t) (S @ [b]) = nodeAt t (S @ [b])"
proof (induction S arbitrary: t)
  case Nil
  then show ?case
    by (auto simp: update_conv' map_add_def split: node.splits option.splits)
next
  case (Cons c S)
  then show ?case
    by (auto simp: update_conv' split: node.splits option.splits)
qed

lemma storeFile_ok:
  "storeFile p c t = Inr t' \<Longrightarrow>
     t' = putNode (segments p) (File c) t \<and> segments p \<noteq> [] \<and> (\<exists>es. nodeAt t (butlast (segments p)) = Some (Dir es))"
  by (auto simp: storeFile_def Let_def split: if_splits option.splits node.splits)

lemma writeFile_ok: "writeFile E p c t = Inr t' \<Longrightarrow> storeFile p c t = Inr t'"
  by (simp add: writeFile_def split: if_splits)

subsection \<open>Steps that return\<close>

lemma andThen_okE:
  assumes "andThen m k st = Some (Inr y, st')"
  obtains x s where "m st = Some (Inr x, s)" "k x s = Some (Inr y, st')"
  using assms by (auto simp: andThen_def split: option.splits sum.splits prod.splits)

lemma fsWrite_okE:
  assumes "fsWrite f st = Some (Inr u, st')"
  obtains t where "f (fs st) = Inr t" "st' = st\<lparr>fs := t\<rparr>"
  using assms by (auto simp: fsWrite_def split: sum.splits)

lemma logLine_fs: "logLine l st = Some (r, st') \<Longrightarrow> fs st' = fs st"
  by (auto simp: logLine_def)

lemma generateFiles_ok:
  assumes "generateFiles E v p d st = Some (Inr (), st')"
  shows "fileText st' (join [platformDirOf E p, ''package.json'']) = Some (packageJson p v d (binaryNameOf p))
       \<and> fileText st' (join [platformDirOf E p, ''index.js'']) = Some (indexJs (binaryNameOf p))
       \<and> fileText st' (join [platformDirOf E p, ''README.md'']) = Some (readme p d)"
proof -
  let ?P = "platformDirOf E p"
  let ?S = "normSegs (hd ?P \<noteq> CHR ''/'') [] (splitOn (CHR ''/'') ?P)"
  have P: "?P \<noteq> []" by (simp add: platformDirOf_def join_nonempty)
  have s1: "segments (join [?P, ''package.json'']) = ?S @ [''package.json'']"
    by (rule segments_join2[OF P]) (simp add: plainName_def)
  have s2: "segments (join [?P, ''index.js'']) = ?S @ [''index.js'']"
    by (rule segments_join2[OF P]) (simp add: plainName_def)
  have s3: "segments (join [?P, ''README.md'']) = ?S @ [''README.md'']"
    by (rule segments_join2[OF P]) (simp add: plainName_def)
  from assms obtain a b c where
    w1: "fsWrite (writeFile E (join [?P, ''package.json'']) (packageJson p v d (binaryNameOf p))) st = Some (Inr (), a)" and
    w2: "fsWrite (writeFile E (join [?P, ''index.js'']) (indexJs (binaryNameOf p))) a = Some (Inr (), b)" and
    w3: "fsWrite (writeFile E (join [?P, ''README.md'']) (readme p d)) b = Some (Inr (), c)" and
    w4: "logLine (Line (''Created package for '' @ p)) c = Some (Inr (), st')"
    unfolding generateFiles_def Let_def by (elim andThen_okE) auto
  from w1 obtain t1 where t1: "storeFile (join [?P, ''package.json'']) (packageJson p v d (binaryNameOf p)) (fs st) = Inr t1" "fs a = t1"
    by (elim fsWrite_okE) (auto dest: writeFile_ok)
  from w2 obtain t2 where t2: "storeFile (join [?P, ''index.js'']) (indexJs (binaryNameOf p)) (fs a) = Inr t2" "fs b = t2"
    by (elim fsWrite_okE) (auto dest: writeFile_ok)
  from w3 obtain t3 where t3: "storeFile (join [?P, ''README.md'']) (readme p d) (fs b) = Inr t3" "fs c = t3"
    by (elim fsWrite_okE) (auto dest: writeFile_ok)
  have fin: "fs st' = t3" using logLine_fs[OF w4] t3 by simp
  note o1 = storeFile_ok[OF t1(1), unfolded s1]
  note o2 = storeFile_ok[OF t2(1), unfolded s2]
  note o3 = storeFile_ok[OF t3(1), unfolded s3]
  have a1: "nodeAt t1 (?S @ [''package.json'']) = Some (File (packageJson p v d (binaryNameOf p)))"
    using o1 nodeAt_putNode_same[of "?S @ [''package.json'']" "fs st"] by auto
  have a2: "nodeAt t2 (?S @ [''index.js'']) = Some (File (indexJs (binaryNameOf p)))"
    using o2 nodeAt_putNode_same[of "?S @ [''index.js'']" "fs a"] by auto
  have a3: "nodeAt t3 (?S @ [''README.md'']) = Some (File (readme p d))"
    using o3 nodeAt_putNode_same[of "?S @ [''README.md'']" "fs b"] by auto
  have b1: "nodeAt t2 (?S @ [''package.json'']) = nodeAt t1 (?S @ [''package.json''])"
    using o2 t1(2) by (simp add: nodeAt_putNode_sibling)
  have b2: "nodeAt t3 (?S @ [''package.json'']) = nodeAt t2 (?S @ [''package.json''])"
    using o3 t2(2) by (simp add: nodeAt_putNode_sibling)
  have b3: "nodeAt t3 (?S @ [''index.js'']) = nodeAt t2 (?S @ [''index.js''])"
    using o3 t2(2) by (simp add: nodeAt_putNode_sibling)
  show ?thesis
    unfolding fileText_def fin s1 s2 s3 using a1 a2 a3 b1 b2 b3 by simp
qed

lemma buildPackage_ok:
  assumes "buildPackage E v p d f st = Some (Inr (), st')"
  shows "fileText st' (join [platformDirOf E p, ''package.json'']) = Some (packageJson p v d (binaryNameOf p))
       \<and> fileText st' (join [platformDirOf E p, ''index.js'']) = Some (indexJs (binaryNameOf p))
       \<and> fileText st' (join [platformDirOf E p, ''README.md'']) = Some (readme p d)"
proof -
  from assms obtain s where "generateFiles E v p d s = Some (Inr (), st')"
    unfolding buildPackage_def by (elim andThen_okE)
  then show ?thesis by (rule generateFiles_ok)
qed

section \<open>How a run can end\<close>


lemma throwsOnly_throw: "throwsOnly (throw e)"
  by (simp add: throwsOnly_def throw_def)




















lemma exitsOne_attempt: "exitsOne m \<Longrightarrow> exitsOne (attempt m)"
  by (fastforce simp: exitsOne_def attempt_def split: option.splits sum.splits prod.splits abort.splits)




section \<open>The loop over the manifest\<close>

lemma processEntry_found:
  assumes "matchHulo (filename e) = Some (k, x)"
    and "platformInfoGet (replaceAll (CHR ''_'') (CHR ''-'') (toLowerCase k)) = Some d"
    and "readFile E (join [join [cwd E, ''temp''], filename e]) (fs st) = Inr c"
  shows "processEntry E v e st =
     buildPackage E v (replaceAll (CHR ''_'') (CHR ''-'') (toLowerCase k)) d
       (join [join [cwd E, ''temp''], filename e])
       (st\<lparr>out := out st @ [Line (''Processing '' @ replaceAll (CHR ''_'') (CHR ''-'') (toLowerCase k)),
                              Line (''File: '' @ filename e)]\<rparr>)"
  using assms
  by (simp add: processEntry_def Let_def andThen_def logLine_def attempt_def fsRead_def)








lemma completed_eq: "completed r \<Longrightarrow> r = Some (Inr (), finalState r)"
  by (auto simp: completed_def finalState_def split: option.splits sum.splits prod.splits)

lemma run_eq: "exitOf r = Some c \<Longrightarrow> r = Some (c, endState r)"
  by (cases r) (auto simp: exitOf_def endState_def)

section \<open>Properties of the post-processor\<close>

lemma linux_match: "matchHulo ''hulo_Linux_x86_64.tar.gz'' = Some (''Linux_x86_64'', ''tar.gz'')"
  by code_simp

lemma linux_name: "replaceAll (CHR ''_'') (CHR ''-'') (toLowerCase ''Linux_x86_64'') = ''linux-x86-64''"
  by code_simp

lemma linux_get: "platformInfoGet ''linux-x86-64'' = Some linuxData"
  by (simp add: platformInfoGet_def platformInfo_def linuxData_def)

lemma linux_escape: "escapeExpression ''linux-x86-64'' = ''linux-x86-64''"
  by code_simp

lemma installerVersion_arg: "argv2 E = Some v \<Longrightarrow> v \<noteq> [] \<Longrightarrow> installerVersion E = v"
  by (simp add: installerVersion_def)

text \<open>
  Claim C1, as amended. When the post-processor is run with a positional version argument
  \<open>v\<close> and processes the manifest entry \<^verbatim>\<open>hulo_Linux_x86_64.tar.gz\<close> whose file is staged,
  and the processing of that entry completes, then the package descriptor of the platform
  names the package \<^verbatim>\<open>@hulo/linux-x86-64\<close> and declares as version the argument as it was
  given (escaped for HTML by the template, which leaves \<^verbatim>\<open>v1.2.3\<close> as it is): for the
  argument \<^verbatim>\<open>v1.2.3\<close> the version is \<^verbatim>\<open>v1.2.3\<close>.
\<close>

theorem linux_descriptor:
  assumes "argv2 E = Some v" "v \<noteq> []" "LF \<notin> set v"
    and "filename e = ''hulo_Linux_x86_64.tar.gz''"
    and "readFile E (join [join [cwd E, ''temp''], filename e]) (fs st) = Inr content"
    and "processEntry E (installerVersion E) e st = Some (Inr (), st')"
  shows "\<exists>text. fileText st' (join [platformDirOf E ''linux-x86-64'', ''package.json'']) = Some text
           \<and> declares text ''name'' ''@hulo/linux-x86-64''
           \<and> declares text ''version'' (escapeExpression v)"
proof -
  have m: "matchHulo (filename e) = Some (''Linux_x86_64'', ''tar.gz'')"
    using assms(4) linux_match by simp
  have g: "platformInfoGet (replaceAll (CHR ''_'') (CHR ''-'') (toLowerCase ''Linux_x86_64'')) = Some linuxData"
    using linux_name linux_get by simp
  have "processEntry E v e st =
     buildPackage E v ''linux-x86-64'' linuxData (join [join [cwd E, ''temp''], filename e])
       (st\<lparr>out := out st @ [Line (''Processing '' @ ''linux-x86-64''), Line (''File: '' @ filename e)]\<rparr>)"
    using processEntry_found[OF m g assms(5), of v] unfolding linux_name .
  then have "buildPackage E v ''linux-x86-64'' linuxData (join [join [cwd E, ''temp''], filename e])
       (st\<lparr>out := out st @ [Line (''Processing '' @ ''linux-x86-64''), Line (''File: '' @ filename e)]\<rparr>)
       = Some (Inr (), st')"
    using assms(6) installerVersion_arg[OF assms(1,2)] by simp
  then have f: "fileText st' (join [platformDirOf E ''linux-x86-64'', ''package.json''])
      = Some (packageJson ''linux-x86-64'' v linuxData (binaryNameOf ''linux-x86-64''))"
    using buildPackage_ok by blast
  have l: "LF \<notin> set ''linux-x86-64''" by (simp add: LF_def)
  have d: "declares (packageJson ''linux-x86-64'' v linuxData (binaryNameOf ''linux-x86-64'')) ''name'' ''@hulo/linux-x86-64''
        \<and> declares (packageJson ''linux-x86-64'' v linuxData (binaryNameOf ''linux-x86-64'')) ''version'' (escapeExpression v)"
    using packageJson_declares_name_version[OF l assms(3), of linuxData "binaryNameOf ''linux-x86-64''"]
    unfolding linux_escape by simp
  show ?thesis using f d by blast
qed

text \<open>The theorem at the argument \<^verbatim>\<open>v1.2.3\<close> in the sample environment.\<close>

theorem linux_descriptor_witness:
  "\<exists>text. fileText (finalState (processEntry (sampleEnv ''v1.2.3'' sampleArchive []) ''v1.2.3'' linuxEntry linuxStaged))
             ''/w/temp/packages/hulo-linux-x86-64/package.json'' = Some text
         \<and> declares text ''name'' ''@hulo/linux-x86-64''
         \<and> declares text ''version'' ''v1.2.3''"
proof -
  let ?E = "sampleEnv ''v1.2.3'' sampleArchive []"
  have h1: "argv2 ?E = Some ''v1.2.3''" by (simp add: sampleEnv_def)
  have h2: "''v1.2.3'' \<noteq> []" by simp
  have h3: "LF \<notin> set ''v1.2.3''" by (simp add: LF_def)
  have h4: "filename linuxEntry = ''hulo_Linux_x86_64.tar.gz''" by (simp add: linuxEntry_def)
  have h5: "readFile ?E (join [join [cwd ?E, ''temp''], filename linuxEntry]) (fs linuxStaged) = Inr ''archive bytes''"
    by code_simp
  have v: "installerVersion ?E = ''v1.2.3''" by (simp add: installerVersion_def sampleEnv_def)
  have c: "completed (processEntry ?E ''v1.2.3'' linuxEntry linuxStaged)" by code_simp
  have h6: "processEntry ?E (installerVersion ?E) linuxEntry linuxStaged
      = Some (Inr (), finalState (processEntry ?E ''v1.2.3'' linuxEntry linuxStaged))"
    unfolding v by (rule completed_eq[OF c])
  have p: "join [platformDirOf ?E ''linux-x86-64'', ''package.json''] = ''/w/temp/packages/hulo-linux-x86-64/package.json''"
    by code_simp
  have e: "escapeExpression ''v1.2.3'' = ''v1.2.3''" by code_simp
  show ?thesis using linux_descriptor[OF h1 h2 h3 h4 h5 h6] unfolding p e .
qed

text \<open>
  Claim C1 as stated fails: the run with the argument \<^verbatim>\<open>v1.2.3\<close> ends with code 0 and a
  descriptor that names \<^verbatim>\<open>@hulo/linux-x86-64\<close> and declares the version \<^verbatim>\<open>v1.2.3\<close>, not
  \<^verbatim>\<open>1.2.3\<close>. The leading \<^verbatim>\<open>v\<close> is not removed.
\<close>

theorem linux_descriptor_counterexample:
  "outcome (installerMain (sampleEnv ''v1.2.3'' sampleArchive []) linuxStaged)
      [[''w'', ''temp'', ''packages'', ''hulo-linux-x86-64'', ''package.json'']]
     = Some (0, [Some (File (packageJson ''linux-x86-64'' ''v1.2.3'' linuxData ''hulo''))])
   \<and> declares (packageJson ''linux-x86-64'' ''v1.2.3'' linuxData ''hulo'') ''name'' ''@hulo/linux-x86-64''
   \<and> declares (packageJson ''linux-x86-64'' ''v1.2.3'' linuxData ''hulo'') ''version'' ''v1.2.3''
   \<and> \<not> declares (packageJson ''linux-x86-64'' ''v1.2.3'' linuxData ''hulo'') ''version'' ''1.2.3''"
  by code_simp

text \<open>
  Where the \<^verbatim>\<open>std\<close> directory of the archive holds subdirectories only, the binary and
  \<^verbatim>\<open>std\<close> are moved below \<^verbatim>\<open>bin\<close> and nothing of them is left at the top level.
\<close>

lemma std_subdirectories_relocated:
  "outcome (installerMain (sampleEnv ''1.2.3'' sampleArchive [])
              (staged ''abc  hulo_Darwin_arm64.tar.gz'' ''hulo_Darwin_arm64.tar.gz''))
      [[''w'', ''temp'', ''packages'', ''hulo-darwin-arm64'', ''bin'', ''hulo''],
       [''w'', ''temp'', ''packages'', ''hulo-darwin-arm64'', ''bin'', ''std''],
       [''w'', ''temp'', ''packages'', ''hulo-darwin-arm64'', ''hulo''],
       [''w'', ''temp'', ''packages'', ''hulo-darwin-arm64'', ''std'']]
     = Some (0, [Some (File ''ELF''), Some (Dir [(''core'', Dir [(''io.hl'', File ''fn'')])]), None, None])"
  by code_simp

text \<open>
  Claim C7 fails on the code. Where the archive \<^verbatim>\<open>hulo_Darwin_arm64.tar.gz\<close> unpacks \<^verbatim>\<open>hulo\<close>
  and a \<^verbatim>\<open>std\<close> directory that holds a file, the copy of that file into \<^verbatim>\<open>bin/std\<close> fails,
  because \<^verbatim>\<open>copyDirectory\<close> creates the target directory of a subdirectory only, never its
  own: the run ends with code 1, \<^verbatim>\<open>bin/std\<close> does not exist, and \<^verbatim>\<open>hulo\<close> and \<^verbatim>\<open>std\<close> are
  still at the top level. Where \<^verbatim>\<open>std\<close> is empty the run ends with code 0 and there is no
  \<^verbatim>\<open>bin/std\<close> either.
\<close>

theorem std_files_not_relocated:
  "outcome (installerMain (sampleEnv ''1.2.3'' [(''hulo'', File ''ELF''), (''std'', Dir [(''io.hl'', File ''fn'')])] [])
              (staged ''abc  hulo_Darwin_arm64.tar.gz'' ''hulo_Darwin_arm64.tar.gz''))
      [[''w'', ''temp'', ''packages'', ''hulo-darwin-arm64'', ''bin'', ''hulo''],
       [''w'', ''temp'', ''packages'', ''hulo-darwin-arm64'', ''bin'', ''std''],
       [''w'', ''temp'', ''packages'', ''hulo-darwin-arm64'', ''hulo''],
       [''w'', ''temp'', ''packages'', ''hulo-darwin-arm64'', ''std'']]
     = Some (1, [Some (File ''ELF''), None, Some (File ''ELF''), Some (Dir [(''io.hl'', File ''fn'')])])
   \<and> outcome (installerMain (sampleEnv ''1.2.3'' [(''hulo'', File ''ELF''), (''std'', Dir [])] [])
              (staged ''abc  hulo_Darwin_arm64.tar.gz'' ''hulo_Darwin_arm64.tar.gz''))
      [[''w'', ''temp'', ''packages'', ''hulo-darwin-arm64'', ''bin'', ''hulo''],
       [''w'', ''temp'', ''packages'', ''hulo-darwin-arm64'', ''bin'', ''std''],
       [''w'', ''temp'', ''packages'', ''hulo-darwin-arm64'', ''hulo''],
       [''w'', ''temp'', ''packages'', ''hulo-darwin-arm64'', ''std'']]
     = Some (0, [Some (File ''ELF''), None, None, None])"
  by code_simp

text \<open>
  The skips of the loop: an entry whose filename the pattern does not match, and an entry
  whose key the lookup does not find, add one line to the console and change nothing else;
  the loop goes on with the next entry.
\<close>

lemma skip_unknown_format:
  assumes "matchHulo (filename e) = None"
  shows "processEntry E v e st =
     Some (Inr (), st\<lparr>out := out st @ [Line (''Skipping unknown format: '' @ filename e)]\<rparr>)"
  using assms by (simp add: processEntry_def logLine_def)

lemma skip_unknown_platform:
  assumes "matchHulo (filename e) = Some (k, x)"
    and "platformInfoGet (replaceAll (CHR ''_'') (CHR ''-'') (toLowerCase k)) = None"
  shows "processEntry E v e st =
     Some (Inr (), st\<lparr>out := out st @ [Line (''Skipping unknown platform: '' @ k @ '' ('' @ filename e @ '')'')]\<rparr>)"
  using assms by (simp add: processEntry_def logLine_def Let_def)

lemma forEach_continues:
  assumes "body x st = Some (Inr (), st')"
  shows "forEach (x # xs) body st = forEach xs body st'"
  using assms by (simp add: andThen_def)

lemma platformInfoGet_None:
  "platformInfoGet n = None \<longleftrightarrow> map_of platformInfo n = None \<and> n \<notin> set objectPrototypeKeys"
  by (simp add: platformInfoGet_def split: option.splits)

text \<open>
  Claim C6 fails on the code for the key \<^verbatim>\<open>constructor\<close>. The platform table has no such
  key, but \<^verbatim>\<open>platformInfo['constructor']\<close> is the constructor every object inherits, which
  is truthy: the entry \<^verbatim>\<open>hulo_constructor.tar.gz\<close> is not skipped. It is processed as a
  platform, and a package \<^verbatim>\<open>hulo-constructor\<close> is generated.
\<close>

theorem constructor_not_skipped:
  "map_of platformInfo ''constructor'' = None
   \<and> outcome (installerMain (sampleEnv ''1.2.3'' sampleArchive [])
              (staged ''abc  hulo_constructor.tar.gz'' ''hulo_constructor.tar.gz''))
      [[''w'', ''temp'', ''packages'', ''hulo-constructor'', ''package.json'']]
     = Some (0, [Some (File (packageJson ''constructor'' ''1.2.3'' Inherited ''hulo''))])
   \<and> out (finalState (processEntry (sampleEnv ''1.2.3'' sampleArchive []) ''1.2.3''
               \<lparr>hash = ''abc'', filename = ''hulo_constructor.tar.gz''\<rparr>
               (staged ''abc  hulo_constructor.tar.gz'' ''hulo_constructor.tar.gz'')))
     = [Line ''Processing constructor'', Line ''File: hulo_constructor.tar.gz'', Line ''Extracting files...'',
        Line ''Extracted to: /w/temp/packages/hulo-constructor'', Line ''Moving hulo to bin/ directory...'',
        Line ''Moving std/ directory to bin/ directory...'', Line ''Created package for constructor'']"
  by code_simp

section \<open>The generated files\<close>




section \<open>The descriptor of a platform of the table\<close>

text \<open>
  Claim C8. For every key of the platform table: when the post-processor processes a
  manifest entry whose platform key normalises to that key, whose file is staged, and the
  processing completes, then the file \<^verbatim>\<open>package.json\<close> it has written into the package
  directory of the key is the descriptor rendered from the table's entry, and it declares,
  in its \<^verbatim>\<open>os\<close> and \<^verbatim>\<open>cpu\<close> members, exactly the \<open>os\<close> and \<open>arch\<close> values that the table
  records for the key, whatever the version.
\<close>

theorem packageJson_declares_platform:
  assumes "map_of platformInfo key = Some d"
    and "matchHulo (filename e) = Some (k, x)"
    and "replaceAll (CHR ''_'') (CHR ''-'') (toLowerCase k) = key"
    and "readFile E (join [join [cwd E, ''temp''], filename e]) (fs st) = Inr content"
    and "processEntry E version e st = Some (Inr (), st')"
  shows "fileText st' (join [platformDirOf E key, ''package.json''])
           = Some (packageJson key version (Own d) (binaryNameOf key))
       \<and> (\<exists>text. fileText st' (join [platformDirOf E key, ''package.json'']) = Some text
             \<and> declaresOne text ''os'' (osName (os d))
             \<and> declaresOne text ''cpu'' (cpuName (arch d)))"
proof -
  have g: "platformInfoGet (replaceAll (CHR ''_'') (CHR ''-'') (toLowerCase k)) = Some (Own d)"
    using assms(1,3) by (simp add: platformInfoGet_def)
  have "processEntry E version e st =
     buildPackage E version key (Own d) (join [join [cwd E, ''temp''], filename e])
       (st\<lparr>out := out st @ [Line (''Processing '' @ key), Line (''File: '' @ filename e)]\<rparr>)"
    using processEntry_found[OF assms(2) g assms(4), of version] unfolding assms(3) .
  then have "buildPackage E version key (Own d) (join [join [cwd E, ''temp''], filename e])
       (st\<lparr>out := out st @ [Line (''Processing '' @ key), Line (''File: '' @ filename e)]\<rparr>)
       = Some (Inr (), st')"
    using assms(5) by simp
  then have f: "fileText st' (join [platformDirOf E key, ''package.json''])
      = Some (packageJson key version (Own d) (binaryNameOf key))"
    using buildPackage_ok by blast
  show ?thesis using f packageJson_os_cpu[OF assms(1), of version] by simp
qed

text \<open>
  The theorem at the entry \<^verbatim>\<open>hulo_Darwin_arm64.tar.gz\<close> in the sample environment, with the
  version \<^verbatim>\<open>1.2.3\<close>.
\<close>

theorem packageJson_declares_platform_witness:
  "\<exists>text. fileText (finalState (processEntry (sampleEnv ''1.2.3'' sampleArchive []) ''1.2.3''
                 \<lparr>hash = ''def'', filename = ''hulo_Darwin_arm64.tar.gz''\<rparr>
                 (staged ''def  hulo_Darwin_arm64.tar.gz'' ''hulo_Darwin_arm64.tar.gz'')))
             ''/w/temp/packages/hulo-darwin-arm64/package.json'' = Some text
         \<and> declaresOne text ''os'' ''darwin''
         \<and> declaresOne text ''cpu'' ''arm64''"
proof -
  let ?E = "sampleEnv ''1.2.3'' sampleArchive []"
  let ?e = "\<lparr>hash = ''def'', filename = ''hulo_Darwin_arm64.tar.gz''\<rparr>"
  let ?st = "staged ''def  hulo_Darwin_arm64.tar.gz'' ''hulo_Darwin_arm64.tar.gz''"
  let ?d = "\<lparr>os = darwin, arch = arm64,
        description = ''Hulo compiler for macOS (Apple Silicon)'',
        keywords = [''hulo'', ''compiler'', ''macos'', ''darwin'', ''arm64'', ''apple-silicon'', ''m1'', ''m2'']\<rparr>"
  have h1: "map_of platformInfo ''darwin-arm64'' = Some ?d" by (simp add: platformInfo_def)
  have h2: "matchHulo (filename ?e) = Some (''Darwin_arm64'', ''tar.gz'')" by code_simp
  have h3: "replaceAll (CHR ''_'') (CHR ''-'') (toLowerCase ''Darwin_arm64'') = ''darwin-arm64''" by code_simp
  have h4: "readFile ?E (join [join [cwd ?E, ''temp''], filename ?e]) (fs ?st) = Inr ''archive bytes''"
    by code_simp
  have c: "completed (processEntry ?E ''1.2.3'' ?e ?st)" by code_simp
  have p: "join [platformDirOf ?E ''darwin-arm64'', ''package.json''] = ''/w/temp/packages/hulo-darwin-arm64/package.json''"
    by code_simp
  have o: "osName (os ?d) = ''darwin''" "cpuName (arch ?d) = ''arm64''" by simp_all
  from packageJson_declares_platform[OF h1 h2 h3 h4 completed_eq[OF c]]
  show ?thesis unfolding p o by (rule conjunct2)
qed

section \<open>Properties of the downloader\<close>

subsection \<open>One download\<close>

text \<open>
  A request that is not answered, and a destination that cannot be opened, give a record of
  failure and leave the file tree as it was. A whole body is stored at the destination and
  gives a record of success. A response that breaks off, with a destination that could be
  opened, gives no record: the step does not end.
\<close>

lemma downloadSettled_rejected:
  assumes "httpGet E (b @ ''/'' @ filename e) = NoResponse"
  shows "downloadSettled E b T e st =
     Some (Inr \<lparr>success = False, dlFilename = filename e, dlError = Some (HttpFailed (b @ ''/'' @ filename e))\<rparr>,
           st\<lparr>out := out st @ [Line (''Failed to download '' @ filename e)]\<rparr>)"
  using assms
  by (simp add: downloadSettled_def pipeResponse_def andThen_def attempt_def logLine_def ret_def Let_def)

lemma downloadSettled_unwritable:
  assumes "httpGet E (b @ ''/'' @ filename e) = Complete body"
    and "createWriteStream E (join [T, filename e]) body (fs st) = Inl err"
  shows "downloadSettled E b T e st =
     Some (Inr \<lparr>success = False, dlFilename = filename e, dlError = Some err\<rparr>,
           st\<lparr>out := out st @ [Line (''Failed to download '' @ filename e)]\<rparr>)"
  using assms
  by (simp add: downloadSettled_def pipeResponse_def andThen_def attempt_def logLine_def ret_def Let_def
      fsWrite_def)

lemma downloadSettled_stored:
  assumes "httpGet E (b @ ''/'' @ filename e) = Complete body"
    and "createWriteStream E (join [T, filename e]) body (fs st) = Inr t"
  shows "downloadSettled E b T e st =
     Some (Inr \<lparr>success = True, dlFilename = filename e, dlError = None\<rparr>,
           st\<lparr>fs := t, out := out st @ [Line (''Downloaded '' @ filename e)]\<rparr>)
       \<and> nodeAt t (segments (join [T, filename e])) = Some (File body)"
proof -
  have s: "storeFile (join [T, filename e]) body (fs st) = Inr t"
    using assms(2) by (simp add: createWriteStream_def split: if_splits)
  have "nodeAt t (segments (join [T, filename e])) = Some (File body)"
    using storeFile_ok[OF s] nodeAt_putNode_same[of "segments (join [T, filename e])" "fs st"] by auto
  then show ?thesis
    using assms
    by (simp add: downloadSettled_def pipeResponse_def andThen_def attempt_def logLine_def ret_def Let_def
        fsWrite_def)
qed

lemma downloadSettled_broken:
  assumes "httpGet E (b @ ''/'' @ filename e) = BrokenOff"
    and "createWriteStream E (join [T, filename e]) [] (fs st) = Inr t"
  shows "downloadSettled E b T e st = None"
  using assms
  by (simp add: downloadSettled_def pipeResponse_def andThen_def attempt_def Let_def)

subsection \<open>The structural steps\<close>

lemma clearTemp_failed:
  assumes "rmSync E T True True (fs st) = (Some err, left)"
  shows "clearTemp E T st =
     Some (Inl (Exited 1), st\<lparr>fs := left, out := out st @ [ErrorLine ''Failed to clear temp directory: '' err]\<rparr>)"
  using assms
  by (simp add: clearTemp_def andThen_def attempt_def fsStep_def logLine_def exitWith_def)

lemma fetcherMain_not_cleared:
  assumes "rmSync E (join [cwd E, ''temp'']) True True (fs st) = (Some err, left)"
  shows "fetcherMain E st =
     Some (1, st\<lparr>fs := left, out := out st @ [Line ''Clearing temp directory...'',
                                   ErrorLine ''Failed to clear temp directory: '' err]\<rparr>)"
proof -
  let ?s0 = "st\<lparr>out := out st @ [Line ''Clearing temp directory...'']\<rparr>"
  have r: "rmSync E (join [cwd E, ''temp'']) True True (fs ?s0) = (Some err, left)" using assms by simp
  show ?thesis
    unfolding fetcherMain_def fetcherBody_def Let_def
    using clearTemp_failed[OF r] by (simp add: andThen_def logLine_def)
qed

lemma fetchAll_no_manifest:
  assumes "mkdir E T (fs st) = Inr t2"
    and "\<And>body. httpGet E (baseUrlOf E @ ''/checksums.txt'') \<noteq> Complete body"
  shows "fetchAll E T st =
     Some (Inl (Exited 1),
           st\<lparr>fs := t2, out := out st @ [Line ''Fetching checksums...'',
                  ErrorLine [] (HttpFailed (baseUrlOf E @ ''/checksums.txt''))],
              reqs := reqs st @ [baseUrlOf E @ ''/checksums.txt'']\<rparr>)"
proof -
  have "httpGet E (baseUrlOf E @ ''/checksums.txt'') = NoResponse \<or> httpGet E (baseUrlOf E @ ''/checksums.txt'') = BrokenOff"
    using assms(2) by (cases "httpGet E (baseUrlOf E @ ''/checksums.txt'')") auto
  then show ?thesis
    using assms(1)
    by (auto simp: fetchAll_def orExit_def Let_def andThen_def attempt_def logLine_def fsWrite_def
        downloadText_def send_def exitWith_def)
qed

text \<open>
  Claim C5 fails on the code where the response with an archive breaks off. The download
  is not caught at its entry and no record of failure is made: \<^verbatim>\<open>downloadFile\<close> listens to
  the write stream only, so its promise is never settled, \<^verbatim>\<open>Promise.all\<close> never resolves and
  \<^verbatim>\<open>main\<close> does not return: the run prints no summary. Where the same server does not
  answer the request for the other archive, that failure is caught and recorded, and the
  run ends with code 0.
\<close>

theorem broken_response_not_recorded:
  "httpGet breakingEnv ''https://github.com/hulo-lang/hulo/releases/download/v1.2.3/hulo_Linux_x86_64.tar.gz'' = BrokenOff
   \<and> downloadSettled breakingEnv ''https://github.com/hulo-lang/hulo/releases/download/v1.2.3'' ''/w/temp''
        \<lparr>hash = ''abc'', filename = ''hulo_Linux_x86_64.tar.gz''\<rparr>
        \<lparr>fs = Dir [(''w'', Dir [(''temp'', Dir [])])], out = [], reqs = []\<rparr> = None
   \<and> fetcherMain breakingEnv emptyStart = None
   \<and> map_option (\<lambda>(code, st). (code, out st)) (fetcherMain (sampleEnv ''v1.2.3'' [] sampleServer) emptyStart)
      = Some (0, [Line ''Clearing temp directory...'', Line ''Temp directory cleared successfully'',
                  Line ''Starting Hulo downloader...'', Line ''Fetching checksums...'',
                  Line ''Checksums fetched successfully'', Line ''Found 2 files to download'',
                  Line ''Starting concurrent downloads...'',
                  Line ''Downloading hulo_Linux_x86_64.tar.gz'', Line ''Downloading hulo_Darwin_arm64.tar.gz'',
                  Line ''Downloaded hulo_Linux_x86_64.tar.gz'', Line ''Failed to download hulo_Darwin_arm64.tar.gz'',
                  Line ''Download Summary'', Line ''Successfully downloaded: 1 files'',
                  Line ''Failed to download: 1 files'', Line ''All files downloaded successfully!'',
                  Line ''Check the temp/ directory for downloaded files''])"
  by code_simp

section \<open>Properties of the file name pattern\<close>


lemma startsWith_append: "startsWith p (p @ s)"
  by (simp add: startsWith_def)

lemma endsWith_iff: "endsWith p s \<longleftrightarrow> (\<exists>ys. s = ys @ p)"
proof
  assume "endsWith p s"
  then have "s = take (length s - length p) s @ p"
    by (metis append_take_drop_id endsWith_def)
  then show "\<exists>ys. s = ys @ p" ..
next
  assume "\<exists>ys. s = ys @ p"
  then show "endsWith p s" by (auto simp: endsWith_def)
qed










subsection \<open>The end of a joined path\<close>




subsection \<open>The pattern in the specification's words\<close>




subsection \<open>Copying and extracting\<close>




lemma not_both_extensions: "endsWith ''.tar.gz'' f \<Longrightarrow> \<not> endsWith ''.zip'' f"
proof
  assume a: "endsWith ''.tar.gz'' f" and b: "endsWith ''.zip'' f"
  from a obtain u where "f = u @ ''.tar.gz''" using endsWith_iff by blast
  then have "last f = CHR ''z''" by simp
  moreover from b obtain w where "f = w @ ''.zip''" using endsWith_iff by blast
  then have "last f = CHR ''p''" by simp
  ultimately show False by simp
qed






end
